theory Spec2Isabelle
  imports Complex_Main "HOL-Library.Word" "HOL-Library.AList"
begin

section \<open>Go values, panics and library functions\<close>

text \<open>
  The code is the revision of \<^verbatim>\<open>config_qemu.go\<close> in which \<^verbatim>\<open>CreateQemuDisksParams\<close>
  takes the VM id and an action; \<^verbatim>\<open>inArray\<close>, which that revision calls, is written out
  in the revision before it. Go's \<^verbatim>\<open>int\<close> is taken at its 64-bit width (amd64, arm64) and
  read as two's complement. An \<^verbatim>\<open>interface{}\<close> holds one of the scalars that reach this
  code: an \<^verbatim>\<open>int\<close> (written by the decoder), a \<^verbatim>\<open>bool\<close>, a \<^verbatim>\<open>string\<close>, a \<^verbatim>\<open>float64\<close>
  (every JSON number, and the deprecated \<^verbatim>\<open>DiskSize\<close>) or nil. A finite \<^verbatim>\<open>float64\<close> is
  the real number it denotes.
\<close>

type_synonym goint = "64 word"

datatype val = VInt goint | VBool bool | VStr string | VFloat real | VNil

text \<open>
  A run-time panic and \<^verbatim>\<open>log.Fatal\<close> (which exits the process) end the call without a
  result; \<open>Err\<close> is an \<^verbatim>\<open>error\<close> value returned to the caller.
\<close>

datatype panic = NilMapAssign | TypeAssertion | IndexOutOfRange

datatype error = Panic panic | Fatal string | Err string

text \<open>
  A \<^verbatim>\<open>map[string]interface{}\<close> is an association list with distinct keys: the list order
  is the order in which one \<^verbatim>\<open>range\<close> loop visits the map, which Go leaves unspecified,
  so a theorem about every list is a theorem about every iteration order. Reading a key
  that is absent gives nil.
\<close>

type_synonym QemuDevice = "(string \<times> val) list"
type_synonym QemuDevices = "(goint \<times> QemuDevice) list"
type_synonym QemuDeviceParam = "string list"

definition index :: "QemuDevice \<Rightarrow> string \<Rightarrow> val" where
  "index m k = (case map_of m k of None \<Rightarrow> VNil | Some v \<Rightarrow> v)"

text \<open>The type assertion \<^verbatim>\<open>v.(string)\<close> in its one-result form panics on any other type.\<close>

definition assertString :: "val \<Rightarrow> error + string" where
  "assertString v = (case v of VStr s \<Rightarrow> Inr s | _ \<Rightarrow> Inl (Panic TypeAssertion))"

subsection \<open>strconv\<close>

function digitsOf :: "nat \<Rightarrow> string" where
  "digitsOf n = (if n < 10 then [''0123456789'' ! n]
                 else digitsOf (n div 10) @ [''0123456789'' ! (n mod 10)])"
  by pat_completeness auto
termination
  by (relation "measure id") auto

declare digitsOf.simps [simp del]

definition Itoa :: "goint \<Rightarrow> string" where
  "Itoa i = (if sint i < 0 then CHR ''-'' # digitsOf (nat (- sint i))
             else digitsOf (nat (sint i)))"

definition isDigit :: "char \<Rightarrow> bool" where
  "isDigit c = (c \<in> set ''0123456789'')"

definition digitVal :: "char \<Rightarrow> nat" where
  "digitVal c = of_char c - 48"

text \<open>
  \<^verbatim>\<open>strconv.ParseUint(s, 10, 64)\<close> on a non-empty string: every byte a decimal digit.
  The accumulator is unbounded here; it never decreases, so the range check of the caller
  on the final value rejects exactly the inputs Go rejects while accumulating.
\<close>

fun parseDigits :: "nat \<Rightarrow> string \<Rightarrow> nat option" where
  "parseDigits acc [] = Some acc"
| "parseDigits acc (c # cs) =
     (if isDigit c then parseDigits (acc * 10 + digitVal c) cs else None)"

text \<open>\<^verbatim>\<open>strconv.ParseInt(s, 10, 64)\<close>; \<open>None\<close> is any non-nil \<^verbatim>\<open>err\<close> (syntax or range).\<close>

definition ParseInt :: "string \<Rightarrow> goint option" where
  "ParseInt s =
     (case s of
        [] \<Rightarrow> None
      | c # cs \<Rightarrow>
          (let neg = (c = CHR ''-'');
               body = (if c = CHR ''+'' \<or> c = CHR ''-'' then cs else s)
           in if body = [] then None
              else (case parseDigits 0 body of
                      None \<Rightarrow> None
                    | Some un \<Rightarrow>
                        if \<not> neg \<and> 2 ^ 63 \<le> un then None
                        else if neg \<and> 2 ^ 63 < un then None
                        else Some (if neg then - of_nat un else of_nat un))))"

definition ParseBool :: "string \<Rightarrow> bool option" where
  "ParseBool s =
     (if s \<in> set [''1'', ''t'', ''T'', ''TRUE'', ''true'', ''True''] then Some True
      else if s \<in> set [''0'', ''f'', ''F'', ''FALSE'', ''false'', ''False''] then Some False
      else None)"

subsection \<open>strings\<close>

text \<open>\<^verbatim>\<open>strings.Split(s, sep)\<close> for a one-byte separator: always at least one part.\<close>

fun Split :: "string \<Rightarrow> char \<Rightarrow> string list" where
  "Split [] sep = [[]]"
| "Split (c # cs) sep =
     (if c = sep then [] # Split cs sep
      else (case Split cs sep of
              [] \<Rightarrow> [[c]]
            | w # ws \<Rightarrow> (c # w) # ws))"

fun Join :: "string list \<Rightarrow> string \<Rightarrow> string" where
  "Join [] sep = []"
| "Join [x] sep = x"
| "Join (x # y # ys) sep = x @ sep @ Join (y # ys) sep"

text \<open>\<^verbatim>\<open>strings.Trim(s, cutset)\<close>: leading and trailing bytes of the cutset removed.\<close>

definition Trim :: "string \<Rightarrow> string \<Rightarrow> string" where
  "Trim s cutset =
     rev (dropWhile (\<lambda>c. c \<in> set cutset) (rev (dropWhile (\<lambda>c. c \<in> set cutset) s)))"

text \<open>
  \<^verbatim>\<open>strings.ToUpper\<close> on ASCII text, the only text it is applied to (the hexadecimal
  rendering of a hardware address).
\<close>

definition upperChar :: "char \<Rightarrow> char" where
  "upperChar c =
     (case map_of (zip ''abcdefghijklmnopqrstuvwxyz'' ''ABCDEFGHIJKLMNOPQRSTUVWXYZ'') c of
        Some u \<Rightarrow> u
      | None \<Rightarrow> c)"

definition ToUpper :: "string \<Rightarrow> string" where
  "ToUpper s = map upperChar s"

text \<open>
  \<^verbatim>\<open>regexp.MatchString\<close> with an unanchored alternation of literals is a substring test.
\<close>

fun hasPrefix :: "string \<Rightarrow> string \<Rightarrow> bool" where
  "hasPrefix s [] = True"
| "hasPrefix [] (p # ps) = False"
| "hasPrefix (c # cs) (p # ps) = (c = p \<and> hasPrefix cs ps)"

fun Contains :: "string \<Rightarrow> string \<Rightarrow> bool" where
  "Contains [] sub = hasPrefix [] sub"
| "Contains (c # cs) sub = (hasPrefix (c # cs) sub \<or> Contains cs sub)"

subsection \<open>fmt\<close>

text \<open>
  What the code takes from outside this file and the model leaves open:
  the \<^verbatim>\<open>%v\<close> rendering of a \<^verbatim>\<open>float64\<close>; the bytes \<^verbatim>\<open>rand.Read\<close> delivers right
  after \<^verbatim>\<open>rand.Seed(seed)\<close> (byte \<open>i\<close> of the stream of that seed); the conversion
  \<^verbatim>\<open>int(f)\<close> of a \<^verbatim>\<open>float64\<close>; \<^verbatim>\<open>strings.TrimSpace\<close>; and the repository's \<^verbatim>\<open>Itob\<close>,
  which is declared in another file.
\<close>

record runtime =
  fmtFloat :: "real \<Rightarrow> string"
  randRead :: "goint \<Rightarrow> nat \<Rightarrow> 8 word"
  floatToInt :: "real \<Rightarrow> goint"
  TrimSpace :: "string \<Rightarrow> string"
  Itob :: "goint \<Rightarrow> bool"

text \<open>\<^verbatim>\<open>fmt.Sprintf("%v", v)\<close>.\<close>

definition fmtv :: "runtime \<Rightarrow> val \<Rightarrow> string" where
  "fmtv rt v =
     (case v of
        VInt i \<Rightarrow> Itoa i
      | VBool b \<Rightarrow> (if b then ''true'' else ''false'')
      | VStr s \<Rightarrow> s
      | VFloat f \<Rightarrow> fmtFloat rt f
      | VNil \<Rightarrow> ''<nil>'')"

section \<open>The device codec\<close>

subsection \<open>Encoding: the generic attribute pass\<close>

fun inArray :: "string list \<Rightarrow> string \<Rightarrow> bool" where
  "inArray [] str = False"
| "inArray (elem # arr) str = (if elem = str then True else inArray arr str)"

text \<open>
  The \<^verbatim>\<open>confValue\<close> chosen for one attribute of \<^verbatim>\<open>createDeviceParam\<close>; \<open>None\<close> is the
  nil interface the variable is declared with.
\<close>

definition confValue :: "val \<Rightarrow> val option" where
  "confValue v =
     (if (case v of VBool bValue \<Rightarrow> bValue | _ \<Rightarrow> False) then Some (VStr ''1'')
      else if (case v of VStr sValue \<Rightarrow> 0 < length sValue | _ \<Rightarrow> False) then Some v
      else if (case v of VInt iValue \<Rightarrow> 0 <s iValue | _ \<Rightarrow> False) then Some v
      else None)"

fun createDeviceParam ::
  "runtime \<Rightarrow> QemuDeviceParam \<Rightarrow> QemuDevice \<Rightarrow> string list \<Rightarrow> QemuDeviceParam" where
  "createDeviceParam rt p [] ignoredKeys = p"
| "createDeviceParam rt p ((key, v) # rest) ignoredKeys =
     (if \<not> inArray ignoredKeys key then
        (case confValue v of
           Some cv \<Rightarrow> createDeviceParam rt (p @ [key @ ''='' @ fmtv rt cv]) rest ignoredKeys
         | None \<Rightarrow> createDeviceParam rt p rest ignoredKeys)
      else createDeviceParam rt p rest ignoredKeys)"

subsection \<open>Decoding\<close>

text \<open>The type the decoder gives a value: integer first, then boolean, then string.\<close>

definition coerce :: "string \<Rightarrow> val" where
  "coerce v =
     (case ParseInt v of
        Some iValue \<Rightarrow> VInt iValue
      | None \<Rightarrow> (case ParseBool v of Some bValue \<Rightarrow> VBool bValue | None \<Rightarrow> VStr v))"

text \<open>
  \<^verbatim>\<open>readDeviceConfig\<close> writes into the map it is called on; the model returns the map.
  \<^verbatim>\<open>conf[1]\<close> is read without a length check, so a segment without \<^verbatim>\<open>=\<close> panics.
\<close>

fun readDeviceConfig :: "QemuDevice \<Rightarrow> string list \<Rightarrow> error + QemuDevice" where
  "readDeviceConfig confMap [] = Inr confMap"
| "readDeviceConfig confMap (confs # rest) =
     (case Split confs (CHR ''='') of
        key # v # _ \<Rightarrow> readDeviceConfig (AList.update key (coerce v) confMap) rest
      | _ \<Rightarrow> Inl (Panic IndexOutOfRange))"

subsection \<open>The VM specification\<close>

text \<open>
  A \<^verbatim>\<open>QemuDevices\<close> field is \<open>None\<close> while the map is nil (a specification decoded
  from JSON without that key) and \<open>Some\<close> once it is made; only writing tells them apart.
  \<^verbatim>\<open>FullClone\<close> is a pointer, \<open>None\<close> when nil.
\<close>

record ConfigQemu =
  Name :: string
  Description :: string
  Onboot :: bool
  Memory :: goint
  Storage :: string
  QemuOs :: string
  QemuCores :: goint
  QemuSockets :: goint
  QemuIso :: string
  QemuDisks :: "QemuDevices option"
  QemuNetworks :: "QemuDevices option"
  FullClone :: "goint option"
  QemuNicModel :: string
  QemuBrige :: string
  QemuVlanTag :: goint
  DiskSize :: real

definition lenDevices :: "QemuDevices option \<Rightarrow> nat" where
  "lenDevices t = (case t of None \<Rightarrow> 0 | Some devs \<Rightarrow> length devs)"

definition rangeDevices :: "QemuDevices option \<Rightarrow> QemuDevices" where
  "rangeDevices t = (case t of None \<Rightarrow> [] | Some devs \<Rightarrow> devs)"

text \<open>\<^verbatim>\<open>t[k] = v\<close> on a device table: a write to the nil map panics.\<close>

definition assignDevice :: "QemuDevices option \<Rightarrow> goint \<Rightarrow> QemuDevice \<Rightarrow> error + QemuDevices option" where
  "assignDevice t k v =
     (case t of
        None \<Rightarrow> Inl (Panic NilMapAssign)
      | Some devs \<Rightarrow> Inr (Some (AList.update k v devs)))"

subsection \<open>Encoding network devices\<close>

text \<open>\<^verbatim>\<open>net.HardwareAddr.String\<close>: two lower-case hexadecimal digits a byte, colons between.\<close>

definition hexByte :: "8 word \<Rightarrow> string" where
  "hexByte b = [''0123456789abcdef'' ! (unat b div 16), ''0123456789abcdef'' ! (unat b mod 16)]"

definition hardwareAddrString :: "8 word list \<Rightarrow> string" where
  "hardwareAddrString a = Join (map hexByte a) '':''"

text \<open>
  The address generated for a device without one: six bytes read after seeding with
  \<^verbatim>\<open>vmID + nicID\<close> (the sum wraps as Go's \<^verbatim>\<open>int\<close> does), printed and upper-cased.
\<close>

definition generateMac :: "runtime \<Rightarrow> goint \<Rightarrow> goint \<Rightarrow> string" where
  "generateMac rt vmID nicID =
     ToUpper (hardwareAddrString (map (randRead rt (vmID + nicID)) [0..<6]))"

text \<open>The backward-compatibility block of \<^verbatim>\<open>CreateQemuNetworksParams\<close>.\<close>

definition deprecatedNetworks :: "ConfigQemu \<Rightarrow> error + QemuDevices option" where
  "deprecatedNetworks c =
     (if lenDevices (QemuNetworks c) = 0 \<and> 0 < length (QemuNicModel c) then
        (let deprecatedStyleMap = [(''type'', VStr (QemuNicModel c)), (''bridge'', VStr (QemuBrige c))];
             deprecatedStyleMap' =
               (if 0 <s QemuVlanTag c
                then AList.update ''tag'' (VStr (Itoa (QemuVlanTag c))) deprecatedStyleMap
                else deprecatedStyleMap)
         in assignDevice (QemuNetworks c) 0 deprecatedStyleMap')
      else Inr (QemuNetworks c))"

text \<open>
  One round of the loop over the network table: the descriptor after the round (the
  generated address is stored into it) and the parameters after the round.
\<close>

definition encodeNic ::
  "runtime \<Rightarrow> goint \<Rightarrow> goint \<Rightarrow> QemuDevice \<Rightarrow> QemuDevice \<Rightarrow> error + QemuDevice \<times> QemuDevice" where
  "encodeNic rt vmID nicID nicConfMap params =
     (let qemuNicName = ''net'' @ Itoa nicID in
      case assertString (index nicConfMap ''macaddr'') of
        Inl e \<Rightarrow> Inl e
      | Inr mac \<Rightarrow>
          (let macAddrUppr = generateMac rt vmID nicID;
               nicConfMap' = (if mac = [] then AList.update ''macaddr'' (VStr macAddrUppr) nicConfMap
                              else nicConfMap);
               nicConfParam = (if mac = [] then [''macaddr='' @ macAddrUppr]
                               else [''macaddr='' @ mac])
           in case assertString (index nicConfMap' ''bridge'') of
                Inl e \<Rightarrow> Inl e
              | Inr bridge \<Rightarrow>
                  (let nicConfParam' =
                         (if bridge \<noteq> ''nat''
                          then nicConfParam @ [''bridge='' @ fmtv rt (index nicConfMap' ''bridge'')]
                          else nicConfParam);
                       ignoredKeys = [''id'', ''bridge'', ''macaddr''];
                       nicConfParam'' = createDeviceParam rt nicConfParam' nicConfMap' ignoredKeys
                   in Inr (nicConfMap',
                           AList.update qemuNicName (VStr (Join nicConfParam'' '','')) params))))"

fun encodeNics ::
  "runtime \<Rightarrow> goint \<Rightarrow> QemuDevices \<Rightarrow> QemuDevice \<Rightarrow> error + QemuDevices \<times> QemuDevice" where
  "encodeNics rt vmID [] params = Inr ([], params)"
| "encodeNics rt vmID ((nicID, nicConfMap) # rest) params =
     (case encodeNic rt vmID nicID nicConfMap params of
        Inl e \<Rightarrow> Inl e
      | Inr (nicConfMap', params') \<Rightarrow>
          (case encodeNics rt vmID rest params' of
             Inl e \<Rightarrow> Inl e
           | Inr (rest', params'') \<Rightarrow> Inr ((nicID, nicConfMap') # rest', params'')))"

text \<open>
  The receiver is a copy of the specification, but its maps are shared with the caller:
  the function gives back the network table as the caller sees it afterwards, and the
  parameters.
\<close>

definition CreateQemuNetworksParams ::
  "runtime \<Rightarrow> ConfigQemu \<Rightarrow> goint \<Rightarrow> QemuDevice \<Rightarrow> error + QemuDevices option \<times> QemuDevice" where
  "CreateQemuNetworksParams rt c vmID params =
     (case deprecatedNetworks c of
        Inl e \<Rightarrow> Inl e
      | Inr networks \<Rightarrow>
          (case encodeNics rt vmID (rangeDevices networks) params of
             Inl e \<Rightarrow> Inl e
           | Inr (devs', params') \<Rightarrow>
               Inr (case networks of None \<Rightarrow> None | Some _ \<Rightarrow> Some devs', params')))"

subsection \<open>Encoding disks\<close>

definition deprecatedDisks :: "ConfigQemu \<Rightarrow> error + QemuDevices option" where
  "deprecatedDisks c =
     (if lenDevices (QemuDisks c) = 0 \<and> 0 < length (Storage c) then
        (let deprecatedStyleMap = [(''storage'', VStr (Storage c)), (''size'', VFloat (DiskSize c))]
         in assignDevice (QemuDisks c) 0 deprecatedStyleMap)
      else Inr (QemuDisks c))"

text \<open>The positional tokens of one disk, by action.\<close>

definition diskStorageParam ::
  "runtime \<Rightarrow> goint \<Rightarrow> string \<Rightarrow> goint \<Rightarrow> QemuDevice \<Rightarrow> error + QemuDeviceParam" where
  "diskStorageParam rt vmID action diskID diskConfMap =
     (if action = ''create'' then
        (case assertString (index diskConfMap ''size'') of
           Inl e \<Rightarrow> Inl e
         | Inr diskSizeGB \<Rightarrow>
             (let diskSize = Trim diskSizeGB ''G'';
                  diskStorage = fmtv rt (index diskConfMap ''storage'') @ '':'' @ diskSize
              in Inr [diskStorage]))
      else if action = ''update'' then
        (let diskSizeGB = ''size='' @ fmtv rt (index diskConfMap ''size'') in
         case assertString (index diskConfMap ''storage_type'') of
           Inl e \<Rightarrow> Inl e
         | Inr storageType \<Rightarrow>
             (let matched = (Contains storageType ''zfspool'' \<or> Contains storageType ''lvm'');
                  diskFile =
                    (if matched then
                       ''file='' @ fmtv rt (index diskConfMap ''storage'') @ '':vm-'' @ Itoa vmID
                         @ ''-disk-'' @ Itoa (diskID + 1)
                     else
                       ''file='' @ fmtv rt (index diskConfMap ''storage'') @ '':'' @ Itoa vmID
                         @ ''/vm-'' @ Itoa vmID @ ''-disk-'' @ Itoa (diskID + 1)
                         @ ''.'' @ fmtv rt (index diskConfMap ''format''))
              in Inr [diskSizeGB, diskFile]))
      else Inr [])"

definition encodeDisk ::
  "runtime \<Rightarrow> goint \<Rightarrow> string \<Rightarrow> goint \<Rightarrow> QemuDevice \<Rightarrow> QemuDevice \<Rightarrow> error + QemuDevice" where
  "encodeDisk rt vmID action diskID diskConfMap params =
     (case assertString (index diskConfMap ''type'') of
        Inl e \<Rightarrow> Inl e
      | Inr deviceType \<Rightarrow>
          (let qemuDiskName = deviceType @ Itoa diskID in
           case diskStorageParam rt vmID action diskID diskConfMap of
             Inl e \<Rightarrow> Inl e
           | Inr diskConfParam \<Rightarrow>
               (case assertString (index diskConfMap ''cache'') of
                  Inl e \<Rightarrow> Inl e
                | Inr cache \<Rightarrow>
                    (let diskConfParam' =
                           (if cache \<noteq> ''none''
                            then diskConfParam @ [''cache='' @ fmtv rt (index diskConfMap ''cache'')]
                            else diskConfParam);
                         ignoredKeys = [''id'', ''type'', ''storage'', ''storage_type'', ''size'', ''cache''];
                         diskConfParam'' = createDeviceParam rt diskConfParam' diskConfMap ignoredKeys
                     in Inr (AList.update qemuDiskName (VStr (Join diskConfParam'' '','')) params)))))"

fun encodeDisks ::
  "runtime \<Rightarrow> goint \<Rightarrow> string \<Rightarrow> QemuDevices \<Rightarrow> QemuDevice \<Rightarrow> error + QemuDevice" where
  "encodeDisks rt vmID action [] params = Inr params"
| "encodeDisks rt vmID action ((diskID, diskConfMap) # rest) params =
     (case encodeDisk rt vmID action diskID diskConfMap params of
        Inl e \<Rightarrow> Inl e
      | Inr params' \<Rightarrow> encodeDisks rt vmID action rest params')"

definition CreateQemuDisksParams ::
  "runtime \<Rightarrow> ConfigQemu \<Rightarrow> goint \<Rightarrow> string \<Rightarrow> QemuDevice \<Rightarrow> error + QemuDevices option \<times> QemuDevice" where
  "CreateQemuDisksParams rt c vmID action params =
     (case deprecatedDisks c of
        Inl e \<Rightarrow> Inl e
      | Inr disks \<Rightarrow>
          (case encodeDisks rt vmID action (rangeDevices disks) params of
             Inl e \<Rightarrow> Inl e
           | Inr params' \<Rightarrow> Inr (disks, params')))"

section \<open>The provisioning orchestrator\<close>

subsection \<open>The API client\<close>

text \<open>
  \<^verbatim>\<open>VmRef\<close> and \<^verbatim>\<open>Client\<close> are declared outside this file; of a \<^verbatim>\<open>VmRef\<close> the code reads
  \<^verbatim>\<open>vmId\<close> and \<^verbatim>\<open>node\<close> and sets the type. What the client and the clock have been asked so
  far is a list of events, oldest first; the client's answer to a request may depend on
  all of it. An answer is an \<^verbatim>\<open>error\<close> (its message) or a result; the exit status of a
  create, clone or set call is never read.
\<close>

record VmRef =
  vmId :: goint
  node :: string
  vmType :: string

datatype request =
    ReqGetVmConfig VmRef
  | ReqCreateQemuVm string QemuDevice
  | ReqCloneQemuVm VmRef QemuDevice
  | ReqSetVmConfig VmRef QemuDevice

datatype event = Request request | Sleep nat

record Client =
  GetVmConfig :: "event list \<Rightarrow> VmRef \<Rightarrow> string + QemuDevice"
  CreateQemuVm :: "event list \<Rightarrow> string \<Rightarrow> QemuDevice \<Rightarrow> string option"
  CloneQemuVm :: "event list \<Rightarrow> VmRef \<Rightarrow> QemuDevice \<Rightarrow> string option"
  SetVmConfig :: "event list \<Rightarrow> VmRef \<Rightarrow> QemuDevice \<Rightarrow> string option"

definition SetVmType :: "VmRef \<Rightarrow> string \<Rightarrow> VmRef" where
  "SetVmType vmr t = vmr\<lparr>vmType := t\<rparr>"

subsection \<open>Create, update, clone\<close>

text \<open>
  Each operation gives back its outcome and the events after it. A successful outcome
  carries the specification as the caller sees it afterwards (its device tables are
  shared with the callee). The \<^verbatim>\<open>error\<close> results of the two encoders are always nil and
  are not read; a panic inside them ends the operation.
\<close>

definition CreateVm ::
  "runtime \<Rightarrow> Client \<Rightarrow> ConfigQemu \<Rightarrow> VmRef \<Rightarrow> event list
     \<Rightarrow> (error + ConfigQemu \<times> VmRef) \<times> event list" where
  "CreateVm rt client config vmr h =
     (let vmr' = SetVmType vmr ''qemu'';
          params = [(''vmid'', VInt (vmId vmr')),
                    (''name'', VStr (Name config)),
                    (''onboot'', VBool (Onboot config)),
                    (''ide2'', VStr (QemuIso config @ '',media=cdrom'')),
                    (''ostype'', VStr (QemuOs config)),
                    (''sockets'', VInt (QemuSockets config)),
                    (''cores'', VInt (QemuCores config)),
                    (''cpu'', VStr ''host''),
                    (''memory'', VInt (Memory config)),
                    (''description'', VStr (Description config))]
      in case CreateQemuDisksParams rt config (vmId vmr') ''create'' params of
           Inl e \<Rightarrow> (Inl e, h)
         | Inr (disks, params') \<Rightarrow>
             (case CreateQemuNetworksParams rt (config\<lparr>QemuDisks := disks\<rparr>) (vmId vmr') params' of
                Inl e \<Rightarrow> (Inl e, h)
              | Inr (networks, params'') \<Rightarrow>
                  (let h' = h @ [Request (ReqCreateQemuVm (node vmr') params'')] in
                   case CreateQemuVm client h (node vmr') params'' of
                     Some err \<Rightarrow> (Inl (Err err), h')
                   | None \<Rightarrow> (Inr (config\<lparr>QemuDisks := disks, QemuNetworks := networks\<rparr>, vmr'), h'))))"

definition UpdateConfig ::
  "runtime \<Rightarrow> Client \<Rightarrow> ConfigQemu \<Rightarrow> VmRef \<Rightarrow> event list
     \<Rightarrow> (error + ConfigQemu) \<times> event list" where
  "UpdateConfig rt client config vmr h =
     (let configParams = [(''description'', VStr (Description config)),
                          (''onboot'', VBool (Onboot config)),
                          (''sockets'', VInt (QemuSockets config)),
                          (''cores'', VInt (QemuCores config)),
                          (''memory'', VInt (Memory config))]
      in case CreateQemuDisksParams rt config (vmId vmr) ''update'' configParams of
           Inl e \<Rightarrow> (Inl e, h)
         | Inr (disks, configParams') \<Rightarrow>
             (case CreateQemuNetworksParams rt (config\<lparr>QemuDisks := disks\<rparr>) (vmId vmr) configParams' of
                Inl e \<Rightarrow> (Inl e, h)
              | Inr (networks, configParams'') \<Rightarrow>
                  (let h' = h @ [Request (ReqSetVmConfig vmr configParams'')] in
                   case SetVmConfig client h vmr configParams'' of
                     Some err \<Rightarrow> (Inl (Err err), h')
                   | None \<Rightarrow> (Inr (config\<lparr>QemuDisks := disks, QemuNetworks := networks\<rparr>), h'))))"

definition CloneVm ::
  "runtime \<Rightarrow> Client \<Rightarrow> ConfigQemu \<Rightarrow> VmRef \<Rightarrow> VmRef \<Rightarrow> event list
     \<Rightarrow> (error + ConfigQemu \<times> VmRef) \<times> event list" where
  "CloneVm rt client config sourceVmr vmr h =
     (let vmr' = SetVmType vmr ''qemu'';
          fullclone = (case FullClone config of None \<Rightarrow> ''1'' | Some f \<Rightarrow> Itoa f);
          params = [(''newid'', VInt (vmId vmr')),
                    (''target'', VStr (node vmr')),
                    (''name'', VStr (Name config)),
                    (''storage'', VStr (Storage config)),
                    (''full'', VStr fullclone)];
          h' = h @ [Request (ReqCloneQemuVm sourceVmr params)]
      in case CloneQemuVm client h sourceVmr params of
           Some err \<Rightarrow> (Inl (Err err), h')
         | None \<Rightarrow>
             (case UpdateConfig rt client config vmr' h' of
                (Inl e, h'') \<Rightarrow> (Inl e, h'')
              | (Inr config', h'') \<Rightarrow> (Inr (config', vmr'), h'')))"

subsection \<open>Reading a configuration back\<close>

text \<open>
  The loop \<^verbatim>\<open>for ii := 0; ii < 3; ii++\<close> of \<^verbatim>\<open>NewConfigQemuFromApi\<close>, from round \<open>ii\<close> on:
  \<open>vmConfig\<close> is the configuration fetched last. A failed fetch goes to \<^verbatim>\<open>log.Fatal\<close>.
  \<^verbatim>\<open>time.Sleep(8 * time.Second)\<close> is the event \<open>Sleep 8\<close>.
\<close>

function fetchLoop ::
  "Client \<Rightarrow> VmRef \<Rightarrow> nat \<Rightarrow> QemuDevice \<Rightarrow> event list \<Rightarrow> (error + QemuDevice) \<times> event list" where
  "fetchLoop client vmr ii vmConfig h =
     (if ii < 3 then
        (let h' = h @ [Request (ReqGetVmConfig vmr)] in
         case GetVmConfig client h vmr of
           Inl err \<Rightarrow> (Inl (Fatal err), h')
         | Inr vmConfig' \<Rightarrow>
             if index vmConfig' ''lock'' = VNil then (Inr vmConfig', h')
             else fetchLoop client vmr (ii + 1) vmConfig' (h' @ [Sleep 8]))
      else (Inr vmConfig, h))"
  by pat_completeness auto
termination
  by (relation "measure (\<lambda>(client, vmr, ii, vmConfig, h). 3 - ii)") auto

declare fetchLoop.simps [simp del]

text \<open>
  After the loop: the typed fields, the ISO path, and the device tables. The pieces of
  the regular expressions are written out: \<^verbatim>\<open>(.*?),media\<close> (where \<^verbatim>\<open>.\<close> is any byte but
  a newline), \<^verbatim>\<open>virtio\d+\<close> and \<^verbatim>\<open>net\d+\<close>, \<^verbatim>\<open>\d+\<close> and \<^verbatim>\<open>\D+\<close>, each at its leftmost match.
\<close>

definition assertFloat :: "val \<Rightarrow> error + real" where
  "assertFloat v = (case v of VFloat f \<Rightarrow> Inr f | _ \<Rightarrow> Inl (Panic TypeAssertion))"

definition andThen :: "error + 'a \<Rightarrow> ('a \<Rightarrow> error + 'b) \<Rightarrow> error + 'b" where
  "andThen m f = (case m of Inl e \<Rightarrow> Inl e | Inr x \<Rightarrow> f x)"

fun rxIsoAt :: "string \<Rightarrow> string option" where
  "rxIsoAt [] = None"
| "rxIsoAt (c # cs) =
     (if hasPrefix (c # cs) '',media'' then Some []
      else if c = CHR 0x0A then None
      else map_option ((#) c) (rxIsoAt cs))"

fun rxIso :: "string \<Rightarrow> string option" where
  "rxIso [] = None"
| "rxIso (c # cs) = (case rxIsoAt (c # cs) of Some isoPath \<Rightarrow> Some isoPath | None \<Rightarrow> rxIso cs)"

fun deviceNameRe :: "string \<Rightarrow> string \<Rightarrow> string option" where
  "deviceNameRe prefix [] = None"
| "deviceNameRe prefix (c # cs) =
     (let ds = takeWhile isDigit (drop (length prefix) (c # cs))
      in if hasPrefix (c # cs) prefix \<and> ds \<noteq> [] then Some (prefix @ ds)
         else deviceNameRe prefix cs)"

definition digitsRe :: "string \<Rightarrow> string option" where
  "digitsRe s =
     (let ds = takeWhile isDigit (dropWhile (\<lambda>c. \<not> isDigit c) s)
      in if ds = [] then None else Some ds)"

definition nonDigitsRe :: "string \<Rightarrow> string option" where
  "nonDigitsRe s =
     (let cs = takeWhile (\<lambda>c. \<not> isDigit c) (dropWhile isDigit s)
      in if cs = [] then None else Some cs)"

text \<open>
  The first result of \<^verbatim>\<open>strconv.Atoi\<close>, which is all the decoder reads: 0 on a syntax
  error, the nearest bound on a range error.
\<close>

definition Atoi :: "string \<Rightarrow> goint" where
  "Atoi s =
     (case s of
        [] \<Rightarrow> 0
      | c # cs \<Rightarrow>
          (let neg = (c = CHR ''-'');
               body = (if c = CHR ''+'' \<or> c = CHR ''-'' then cs else s)
           in if body = [] then 0
              else (case parseDigits 0 body of
                      None \<Rightarrow> 0
                    | Some un \<Rightarrow>
                        if \<not> neg \<and> 2 ^ 63 \<le> un then 2 ^ 63 - 1
                        else if neg \<and> 2 ^ 63 < un then - (2 ^ 63)
                        else if neg then - of_nat un else of_nat un)))"

definition decodeDisk :: "QemuDevice \<Rightarrow> string \<Rightarrow> error + goint \<times> QemuDevice" where
  "decodeDisk vmConfig diskName =
     andThen (assertString (index vmConfig diskName)) (\<lambda>diskConfStr.
       case Split diskConfStr (CHR '','') of
         [] \<Rightarrow> Inl (Panic IndexOutOfRange)
       | positional # diskConfList \<Rightarrow>
           (case digitsRe diskName of
              None \<Rightarrow> Inl (Panic IndexOutOfRange)
            | Some idStr \<Rightarrow>
                (case nonDigitsRe diskName of
                   None \<Rightarrow> Inl (Panic IndexOutOfRange)
                 | Some diskType \<Rightarrow>
                     (case Split positional (CHR '':'') of
                        diskStorage # diskFile # _ \<Rightarrow>
                          andThen
                            (readDeviceConfig
                               [(''type'', VStr diskType), (''storage'', VStr diskStorage),
                                (''file'', VStr diskFile)]
                               diskConfList)
                            (\<lambda>diskConfMap. Inr (Atoi idStr, diskConfMap))
                      | _ \<Rightarrow> Inl (Panic IndexOutOfRange)))))"

fun decodeDisks :: "QemuDevice \<Rightarrow> string list \<Rightarrow> QemuDevices \<Rightarrow> error + QemuDevices" where
  "decodeDisks vmConfig [] disks = Inr disks"
| "decodeDisks vmConfig (diskName # rest) disks =
     (case decodeDisk vmConfig diskName of
        Inl e \<Rightarrow> Inl e
      | Inr (diskID, diskConfMap) \<Rightarrow>
          decodeDisks vmConfig rest
            (if 0 < length diskConfMap then AList.update diskID diskConfMap disks else disks))"

definition decodeNic :: "QemuDevice \<Rightarrow> string \<Rightarrow> error + goint \<times> QemuDevice" where
  "decodeNic vmConfig nicName =
     andThen (assertString (index vmConfig nicName)) (\<lambda>nicConfStr.
       case Split nicConfStr (CHR '','') of
         [] \<Rightarrow> Inl (Panic IndexOutOfRange)
       | positional # nicConfList \<Rightarrow>
           (case digitsRe nicName of
              None \<Rightarrow> Inl (Panic IndexOutOfRange)
            | Some idStr \<Rightarrow>
                (case Split positional (CHR ''='') of
                   model # macaddr # _ \<Rightarrow>
                     andThen
                       (readDeviceConfig
                          [(''model'', VStr model), (''macaddr'', VStr macaddr)] nicConfList)
                       (\<lambda>nicConfMap. Inr (Atoi idStr, nicConfMap))
                 | _ \<Rightarrow> Inl (Panic IndexOutOfRange))))"

fun decodeNics :: "QemuDevice \<Rightarrow> string list \<Rightarrow> QemuDevices \<Rightarrow> error + QemuDevices" where
  "decodeNics vmConfig [] networks = Inr networks"
| "decodeNics vmConfig (nicName # rest) networks =
     (case decodeNic vmConfig nicName of
        Inl e \<Rightarrow> Inl e
      | Inr (nicID, nicConfMap) \<Rightarrow>
          decodeNics vmConfig rest
            (if 0 < length nicConfMap then AList.update nicID nicConfMap networks else networks))"

definition configFromApi :: "runtime \<Rightarrow> QemuDevice \<Rightarrow> error + ConfigQemu" where
  "configFromApi rt vmConfig =
     andThen (if index vmConfig ''fullclone'' \<noteq> VNil
              then andThen (assertFloat (index vmConfig ''fullclone'')) (\<lambda>f. Inr (floatToInt rt f))
              else Inr 1) (\<lambda>fullclone.
     andThen (if index vmConfig ''description'' \<noteq> VNil
              then assertString (index vmConfig ''description'')
              else Inr []) (\<lambda>description.
     andThen (assertString (index vmConfig ''name'')) (\<lambda>name.
     andThen (assertFloat (index vmConfig ''onboot'')) (\<lambda>onboot.
     andThen (assertString (index vmConfig ''ostype'')) (\<lambda>ostype.
     andThen (assertFloat (index vmConfig ''memory'')) (\<lambda>memory.
     andThen (assertFloat (index vmConfig ''cores'')) (\<lambda>cores.
     andThen (assertFloat (index vmConfig ''sockets'')) (\<lambda>sockets.
     andThen (if index vmConfig ''ide2'' \<noteq> VNil
              then andThen (assertString (index vmConfig ''ide2'')) (\<lambda>ide2.
                     case rxIso ide2 of
                       None \<Rightarrow> Inl (Panic IndexOutOfRange)
                     | Some isoPath \<Rightarrow> Inr isoPath)
              else Inr []) (\<lambda>isoPath.
     andThen (decodeDisks vmConfig
                (List.map_filter (deviceNameRe ''virtio'') (map fst vmConfig)) []) (\<lambda>disks.
     andThen (decodeNics vmConfig
                (List.map_filter (deviceNameRe ''net'') (map fst vmConfig)) []) (\<lambda>networks.
     Inr \<lparr>Name = name,
          Description = TrimSpace rt description,
          Onboot = Itob rt (floatToInt rt onboot),
          Memory = floatToInt rt memory,
          Storage = [],
          QemuOs = ostype,
          QemuCores = floatToInt rt cores,
          QemuSockets = floatToInt rt sockets,
          QemuIso = isoPath,
          QemuDisks = Some disks,
          QemuNetworks = Some networks,
          FullClone = Some fullclone,
          QemuNicModel = [],
          QemuBrige = [],
          QemuVlanTag = - 1,
          DiskSize = 0\<rparr>)))))))))))"

definition NewConfigQemuFromApi ::
  "runtime \<Rightarrow> Client \<Rightarrow> VmRef \<Rightarrow> event list \<Rightarrow> (error + ConfigQemu) \<times> event list" where
  "NewConfigQemuFromApi rt client vmr h =
     (case fetchLoop client vmr 0 [] h of
        (Inl e, h') \<Rightarrow> (Inl e, h')
      | (Inr vmConfig, h') \<Rightarrow>
          if index vmConfig ''lock'' \<noteq> VNil
          then (Inl (Err ''vm locked, could not obtain config''), h')
          else (configFromApi rt vmConfig, h'))"

section \<open>Measures, the specification's wording, and concrete inputs\<close>

text \<open>What a run has cost: the seconds slept and the configurations fetched.\<close>

fun slept :: "event list \<Rightarrow> nat" where
  "slept [] = 0"
| "slept (Sleep n # h) = n + slept h"
| "slept (Request r # h) = slept h"

fun fetches :: "event list \<Rightarrow> nat" where
  "fetches [] = 0"
| "fetches (Request (ReqGetVmConfig vmr) # h) = Suc (fetches h)"
| "fetches (e # h) = fetches h"

fun setConfigs :: "event list \<Rightarrow> nat" where
  "setConfigs [] = 0"
| "setConfigs (Request (ReqSetVmConfig vmr params) # h) = Suc (setConfigs h)"
| "setConfigs (e # h) = setConfigs h"

text \<open>
  The coercion as the specification words it: an integer first, then a boolean from the
  literals \<^verbatim>\<open>true\<close> and \<^verbatim>\<open>false\<close> only, otherwise the string.
\<close>

definition coerceSpec :: "string \<Rightarrow> val" where
  "coerceSpec v =
     (case ParseInt v of
        Some iValue \<Rightarrow> VInt iValue
      | None \<Rightarrow> if v = ''true'' then VBool True else if v = ''false'' then VBool False else VStr v)"

text \<open>
  A runtime to evaluate with: \<^verbatim>\<open>int(f)\<close> truncates towards zero, \<^verbatim>\<open>TrimSpace\<close> strips ASCII
  white space, \<^verbatim>\<open>Itob\<close> is true of 1. Its random bytes and its float rendering are
  stand-ins; the theorems hold for every runtime.
\<close>

definition exampleRuntime :: runtime where
  "exampleRuntime =
     \<lparr>fmtFloat = (\<lambda>f. ''0''),
      randRead = (\<lambda>seed i. of_nat (unat seed + 37 * i)),
      floatToInt = (\<lambda>f. of_int (if f < 0 then - \<lfloor>- f\<rfloor> else \<lfloor>f\<rfloor>)),
      TrimSpace = (\<lambda>s. Trim s [CHR 0x20, CHR 0x09, CHR 0x0A, CHR 0x0B, CHR 0x0C, CHR 0x0D]),
      Itob = (\<lambda>i. i = 1)\<rparr>"

text \<open>The disk of the specification's scenarios, as written there and with a cache mode.\<close>

definition scenarioDisk :: QemuDevice where
  "scenarioDisk = [(''type'', VStr ''virtio''), (''storage'', VStr ''local''), (''size'', VStr ''20G'')]"

definition scenarioDiskCached :: QemuDevice where
  "scenarioDiskCached = scenarioDisk @ [(''cache'', VStr ''none'')]"

definition scenarioUpdateDisk :: QemuDevice where
  "scenarioUpdateDisk =
     scenarioDisk @ [(''storage_type'', VStr ''dir''), (''format'', VStr ''qcow2'')]"

definition scenarioUpdateDiskCached :: QemuDevice where
  "scenarioUpdateDiskCached = scenarioUpdateDisk @ [(''cache'', VStr ''none'')]"

definition scenarioNic :: QemuDevice where
  "scenarioNic = [(''model'', VStr ''virtio''), (''macaddr'', VStr []), (''bridge'', VStr ''vmbr0'')]"

definition scenarioConfig :: ConfigQemu where
  "scenarioConfig =
     \<lparr>Name = ''vm1'', Description = [], Onboot = False, Memory = 2048, Storage = ''local'',
      QemuOs = ''l26'', QemuCores = 2, QemuSockets = 1, QemuIso = [],
      QemuDisks = Some [(0, scenarioDiskCached)], QemuNetworks = Some [(0, scenarioNic)],
      FullClone = None, QemuNicModel = ''virtio'', QemuBrige = ''vmbr0'', QemuVlanTag = - 1,
      DiskSize = 20\<rparr>"

definition scenarioVm :: VmRef where
  "scenarioVm = \<lparr>vmId = 101, node = ''pve'', vmType = []\<rparr>"

definition sourceVm :: VmRef where
  "sourceVm = \<lparr>vmId = 100, node = ''pve'', vmType = ''qemu''\<rparr>"

text \<open>A client whose configuration is locked for ever, and one that refuses to clone.\<close>

definition lockedClient :: Client where
  "lockedClient =
     \<lparr>GetVmConfig = (\<lambda>h vmr. Inr [(''lock'', VStr ''clone'')]),
      CreateQemuVm = (\<lambda>h n p. None),
      CloneQemuVm = (\<lambda>h vmr p. None),
      SetVmConfig = (\<lambda>h vmr p. None)\<rparr>"

text \<open>
  A configuration as the API returns it once the clone is done, and a client that reports
  the lock on the first fetch only.
\<close>

definition readyConfig :: QemuDevice where
  "readyConfig =
     [(''name'', VStr ''vm1''), (''onboot'', VFloat 1), (''ostype'', VStr ''l26''),
      (''memory'', VFloat 2048), (''cores'', VFloat 2), (''sockets'', VFloat 1),
      (''net0'', VStr ''virtio=AA:BB:CC:DD:EE:FF,bridge=vmbr0''),
      (''virtio0'', VStr ''local:vm-101-disk-1,size=20G'')]"

definition clearingClient :: Client where
  "clearingClient =
     lockedClient\<lparr>GetVmConfig :=
       (\<lambda>h vmr. if fetches h = 0 then Inr [(''lock'', VStr ''clone'')] else Inr readyConfig)\<rparr>"

definition refusingClient :: Client where
  "refusingClient = lockedClient\<lparr>CloneQemuVm := (\<lambda>h vmr p. Some ''clone failed'')\<rparr>"

definition scenarioCloneConfig :: ConfigQemu where
  "scenarioCloneConfig = scenarioConfig\<lparr>QemuDisks := Some [(0, scenarioUpdateDiskCached)]\<rparr>"

text \<open>
  The shape of a printed hardware address in upper case: pairs of hexadecimal digits
  \<^verbatim>\<open>0-9A-F\<close> with a colon between two pairs; six pairs make 17 characters.
\<close>

fun upperHexPairs :: "string \<Rightarrow> bool" where
  "upperHexPairs [a, b] = (a \<in> set ''0123456789ABCDEF'' \<and> b \<in> set ''0123456789ABCDEF'')"
| "upperHexPairs (a # b # c # rest) =
     (a \<in> set ''0123456789ABCDEF'' \<and> b \<in> set ''0123456789ABCDEF'' \<and> c = CHR '':''
      \<and> upperHexPairs rest)"
| "upperHexPairs _ = False"

definition isUpperMac :: "string \<Rightarrow> bool" where
  "isUpperMac s = (length s = 17 \<and> upperHexPairs s)"

text \<open>
  A printed hardware address read back: the bytes its pairs of upper-case hexadecimal
  digits denote.
\<close>

definition hexVal :: "char \<Rightarrow> nat" where
  "hexVal c =
     (case map_of (zip ''0123456789ABCDEF'' [0 ..< 16]) c of Some n \<Rightarrow> n | None \<Rightarrow> 0)"

fun parseMac :: "string \<Rightarrow> 8 word list" where
  "parseMac [a, b] = [of_nat (hexVal a * 16 + hexVal b)]"
| "parseMac (a # b # c # rest) = of_nat (hexVal a * 16 + hexVal b) # parseMac rest"
| "parseMac _ = []"

definition scenarioUpdateDiskWriteback :: QemuDevice where
  "scenarioUpdateDiskWriteback = scenarioUpdateDisk @ [(''cache'', VStr ''writeback'')]"

section \<open>Auxiliary lemmas\<close>

subsection \<open>Splitting and decoding\<close>

lemma Split_no_sep: "sep \<notin> set s \<Longrightarrow> Split s sep = [s]"
  by (induction s) auto

lemma Split_nonempty: "Split s sep \<noteq> []"
  by (induction s) (auto split: list.splits)

lemma Split_sep: "sep \<in> set s \<Longrightarrow> \<exists>a b r. Split s sep = a # b # r"
proof (induction s)
  case Nil
  then show ?case by simp
next
  case (Cons c cs)
  show ?case
  proof (cases "c = sep")
    case True
    obtain w ws where "Split cs sep = w # ws"
      using Split_nonempty [of cs sep] by (cases "Split cs sep") auto
    with True show ?thesis by simp
  next
    case False
    with Cons.prems have "sep \<in> set cs" by simp
    from Cons.IH [OF this] obtain a b r where "Split cs sep = a # b # r" by blast
    with False show ?thesis by simp
  qed
qed

lemma readDeviceConfig_step_ok:
  "CHR ''='' \<in> set confs \<Longrightarrow>
   \<exists>key v. readDeviceConfig confMap (confs # rest) = readDeviceConfig (AList.update key (coerce v) confMap) rest"
proof -
  assume "CHR ''='' \<in> set confs"
  from Split_sep [OF this] obtain a b r where "Split confs (CHR ''='') = a # b # r" by blast
  then show ?thesis by auto
qed

lemma readDeviceConfig_step_bad:
  "CHR ''='' \<notin> set confs \<Longrightarrow> readDeviceConfig confMap (confs # rest) = Inl (Panic IndexOutOfRange)"
  by (simp add: Split_no_sep)

lemma readDeviceConfig_result:
  "readDeviceConfig confMap confList = Inl (Panic IndexOutOfRange) \<or> (\<exists>m. readDeviceConfig confMap confList = Inr m)"
proof (induction confList arbitrary: confMap)
  case Nil
  then show ?case by simp
next
  case (Cons confs rest)
  show ?case
  proof (cases "CHR ''='' \<in> set confs")
    case True
    from readDeviceConfig_step_ok [OF this, of confMap rest] Cons.IH show ?thesis by metis
  next
    case False
    then show ?thesis by (simp add: Split_no_sep)
  qed
qed

subsection \<open>The generic attribute pass\<close>

lemma createDeviceParam_acc:
  "createDeviceParam rt p m ignoredKeys = p @ createDeviceParam rt [] m ignoredKeys"
proof (induction m arbitrary: p)
  case Nil
  then show ?case by simp
next
  case (Cons kv m)
  obtain key v where kv: "kv = (key, v)" by (cases kv)
  show ?case
  proof (cases "inArray ignoredKeys key")
    case True
    with kv Cons.IH [of p] show ?thesis by simp
  next
    case False
    show ?thesis
    proof (cases "confValue v")
      case None
      with False kv Cons.IH [of p] show ?thesis by simp
    next
      case (Some cv)
      with False kv Cons.IH [of "p @ [key @ ''='' @ fmtv rt cv]"]
        Cons.IH [of "[key @ ''='' @ fmtv rt cv]"]
      show ?thesis by simp
    qed
  qed
qed

lemma createDeviceParam_append:
  "createDeviceParam rt p (xs @ ys) ignoredKeys
     = createDeviceParam rt (createDeviceParam rt p xs ignoredKeys) ys ignoredKeys"
  by (induction xs arbitrary: p) (auto split: option.splits)

lemma confValue_suppressed:
  "v = VBool False \<or> v = VStr [] \<or> (\<exists>i. v = VInt i \<and> i \<le>s 0) \<Longrightarrow> confValue v = None"
  by (auto simp: confValue_def word_sless_alt word_sle_eq)

lemma confValue_Some:
  "confValue v = Some cv \<Longrightarrow>
     (v = VBool True \<and> cv = VStr ''1'') \<or> (\<exists>s. s \<noteq> [] \<and> v = VStr s \<and> cv = v)
       \<or> (\<exists>i. 0 <s i \<and> v = VInt i \<and> cv = v)"
  by (cases v) (auto simp: confValue_def split: if_splits)

lemma createDeviceParam_tokens:
  "t \<in> set (createDeviceParam rt p m ignoredKeys) \<Longrightarrow>
     t \<in> set p \<or> (\<exists>key v cv. (key, v) \<in> set m \<and> \<not> inArray ignoredKeys key
                      \<and> confValue v = Some cv \<and> t = key @ ''='' @ fmtv rt cv)"
proof (induction m arbitrary: p)
  case Nil
  then show ?case by simp
next
  case (Cons kv m)
  obtain key v where kv: "kv = (key, v)" by (cases kv)
  show ?case
  proof (cases "\<not> inArray ignoredKeys key \<and> confValue v \<noteq> None")
    case True
    then obtain cv where cv: "confValue v = Some cv" by auto
    with True kv Cons.prems
    have "t \<in> set (createDeviceParam rt (p @ [key @ ''='' @ fmtv rt cv]) m ignoredKeys)" by simp
    from Cons.IH [OF this] True cv kv show ?thesis by auto
  next
    case False
    with kv Cons.prems have "t \<in> set (createDeviceParam rt p m ignoredKeys)"
      by (auto split: option.splits)
    from Cons.IH [OF this] show ?thesis by auto
  qed
qed

lemma readDeviceConfig_panics_iff:
  "(\<exists>confs \<in> set confList. CHR ''='' \<notin> set confs)
     \<longleftrightarrow> readDeviceConfig confMap confList = Inl (Panic IndexOutOfRange)"
proof (induction confList arbitrary: confMap)
  case Nil
  then show ?case by simp
next
  case (Cons confs rest)
  show ?case
  proof (cases "CHR ''='' \<in> set confs")
    case True
    from readDeviceConfig_step_ok [OF this, of confMap rest]
    obtain key v where "readDeviceConfig confMap (confs # rest)
        = readDeviceConfig (AList.update key (coerce v) confMap) rest" by blast
    with True Cons.IH [of "AList.update key (coerce v) confMap"] show ?thesis by simp
  next
    case False
    then show ?thesis by (simp add: Split_no_sep)
  qed
qed

subsection \<open>The backward-compatibility blocks\<close>

lemma deprecatedDisks_nonempty:
  "QemuDisks c = Some (d # ds) \<Longrightarrow> deprecatedDisks c = Inr (Some (d # ds))"
  by (simp add: deprecatedDisks_def lenDevices_def)

lemma deprecatedNetworks_nonempty:
  "QemuNetworks c = Some (n # ns) \<Longrightarrow> deprecatedNetworks c = Inr (Some (n # ns))"
  by (simp add: deprecatedNetworks_def lenDevices_def)

text \<open>
  In this revision a synthesized descriptor never reaches the parameters: the disk one has
  no \<^verbatim>\<open>type\<close> and the network one no \<^verbatim>\<open>macaddr\<close>, and the loop asserts both to be strings.
\<close>

lemma deprecated_devices_never_encode:
  "(QemuDisks c = Some [] \<and> Storage c \<noteq> [] \<longrightarrow>
      CreateQemuDisksParams rt c vmID action params = Inl (Panic TypeAssertion))
   \<and> (QemuNetworks c = Some [] \<and> QemuNicModel c \<noteq> [] \<longrightarrow>
      CreateQemuNetworksParams rt c vmID params = Inl (Panic TypeAssertion))"
  by (simp add: CreateQemuDisksParams_def CreateQemuNetworksParams_def deprecatedDisks_def
        deprecatedNetworks_def lenDevices_def assignDevice_def rangeDevices_def
        encodeDisk_def encodeNic_def assertString_def index_def Let_def)

subsection \<open>The fetch loop\<close>

lemma fetches_append: "fetches (h @ h') = fetches h + fetches h'"
  by (induction h rule: fetches.induct) auto

lemma slept_append: "slept (h @ h') = slept h + slept h'"
  by (induction h rule: slept.induct) auto

lemma fetchLoop_done: "\<not> ii < 3 \<Longrightarrow> fetchLoop client vmr ii vmConfig h = (Inr vmConfig, h)"
  by (simp add: fetchLoop.simps)

lemma fetchLoop_locked_step:
  assumes "ii < 3" and "GetVmConfig client h vmr = Inr vmConfig'"
    and "index vmConfig' ''lock'' \<noteq> VNil"
  shows "fetchLoop client vmr ii vmConfig h
           = fetchLoop client vmr (ii + 1) vmConfig' (h @ [Request (ReqGetVmConfig vmr), Sleep 8])"
  using assms by (subst fetchLoop.simps) simp

lemma fetchLoop_cost:
  "fetches (snd (fetchLoop client vmr ii vmConfig h)) \<le> fetches h + (3 - ii)
   \<and> slept (snd (fetchLoop client vmr ii vmConfig h)) \<le> slept h + 8 * (3 - ii)
   \<and> (ii < 3 \<longrightarrow> fetches h + 1 \<le> fetches (snd (fetchLoop client vmr ii vmConfig h)))
   \<and> (fetches h \<le> fetches (snd (fetchLoop client vmr ii vmConfig h)))"
proof (induction client vmr ii vmConfig h rule: fetchLoop.induct)
  case (1 client vmr ii vmConfig h)
  show ?case
  proof (cases "ii < 3")
    case False
    then show ?thesis by (simp add: fetchLoop_done)
  next
    case True
    note lt = this
    show ?thesis
    proof (cases "GetVmConfig client h vmr")
      case (Inl err)
      with lt show ?thesis
        by (subst (1 2 3 4) fetchLoop.simps) (simp add: fetches_append slept_append)
    next
      case (Inr vmConfig')
      show ?thesis
      proof (cases "index vmConfig' ''lock'' = VNil")
        case True
        with lt Inr show ?thesis
          by (subst (1 2 3 4) fetchLoop.simps) (simp add: fetches_append slept_append)
      next
        case False
        from "1.IH" [OF lt refl Inr False]
        have ih: "fetches (snd (fetchLoop client vmr (ii + 1) vmConfig'
                      ((h @ [Request (ReqGetVmConfig vmr)]) @ [Sleep 8])))
                    \<le> fetches ((h @ [Request (ReqGetVmConfig vmr)]) @ [Sleep 8]) + (3 - (ii + 1))"
          "slept (snd (fetchLoop client vmr (ii + 1) vmConfig'
                      ((h @ [Request (ReqGetVmConfig vmr)]) @ [Sleep 8])))
                    \<le> slept ((h @ [Request (ReqGetVmConfig vmr)]) @ [Sleep 8]) + 8 * (3 - (ii + 1))"
          "fetches ((h @ [Request (ReqGetVmConfig vmr)]) @ [Sleep 8])
             \<le> fetches (snd (fetchLoop client vmr (ii + 1) vmConfig'
                      ((h @ [Request (ReqGetVmConfig vmr)]) @ [Sleep 8])))"
          by simp_all
        have step: "fetchLoop client vmr ii vmConfig h
            = fetchLoop client vmr (ii + 1) vmConfig' ((h @ [Request (ReqGetVmConfig vmr)]) @ [Sleep 8])"
          using fetchLoop_locked_step [OF lt Inr False] by simp
        from ih lt show ?thesis
          unfolding step by (simp add: fetches_append slept_append) arith
      qed
    qed
  qed
qed

lemma fetchLoop_always_locked:
  assumes "\<forall>h'. \<exists>vmConfig'. GetVmConfig client h' vmr = Inr vmConfig' \<and> index vmConfig' ''lock'' \<noteq> VNil"
  shows "\<exists>vmConfig'. index vmConfig' ''lock'' \<noteq> VNil
           \<and> fetchLoop client vmr 0 vmConfig h
               = (Inr vmConfig', h @ [Request (ReqGetVmConfig vmr), Sleep 8,
                                      Request (ReqGetVmConfig vmr), Sleep 8,
                                      Request (ReqGetVmConfig vmr), Sleep 8])"
proof -
  let ?round = "[Request (ReqGetVmConfig vmr), Sleep 8]"
  from assms obtain c1 where c1: "GetVmConfig client h vmr = Inr c1" "index c1 ''lock'' \<noteq> VNil"
    by blast
  from assms obtain c2 where c2: "GetVmConfig client (h @ ?round) vmr = Inr c2"
    "index c2 ''lock'' \<noteq> VNil" by blast
  from assms obtain c3 where c3: "GetVmConfig client ((h @ ?round) @ ?round) vmr = Inr c3"
    "index c3 ''lock'' \<noteq> VNil" by blast
  have "fetchLoop client vmr 0 vmConfig h = fetchLoop client vmr (0 + 1) c1 (h @ ?round)"
    by (rule fetchLoop_locked_step [OF _ c1]) simp
  also have "\<dots> = fetchLoop client vmr (0 + 1 + 1) c2 ((h @ ?round) @ ?round)"
    by (rule fetchLoop_locked_step [OF _ c2]) simp
  also have "\<dots> = fetchLoop client vmr (0 + 1 + 1 + 1) c3 (((h @ ?round) @ ?round) @ ?round)"
    by (rule fetchLoop_locked_step [OF _ c3]) simp
  also have "\<dots> = (Inr c3, ((h @ ?round) @ ?round) @ ?round)"
    by (rule fetchLoop_done) simp
  finally show ?thesis using c3(2) by simp
qed

subsection \<open>Encoding one disk\<close>

lemma createDeviceParam_all_ignored:
  "\<forall>key \<in> fst ` set m. inArray ignoredKeys key \<Longrightarrow> createDeviceParam rt p m ignoredKeys = p"
  by (induction m arbitrary: p) auto

lemma index_update_same: "index (AList.update k v m) k = v"
  by (simp add: index_def update_conv')

lemma index_update_other: "k' \<noteq> k \<Longrightarrow> index (AList.update k v m) k' = index m k'"
  by (simp add: index_def update_conv')

lemma Join_two:
  "Join (a # b # rest) sep = a @ sep @ b @ (if rest = [] then [] else sep @ Join rest sep)"
  by (cases rest) auto

lemma assertString_Inr: "assertString v = Inr s \<longleftrightarrow> v = VStr s"
  by (cases v) (auto simp: assertString_def)

lemma assertString_Inl: "assertString v = Inl e \<Longrightarrow> e = Panic TypeAssertion"
  by (cases v) (auto simp: assertString_def)

lemma Trim_suffix:
  "CHR ''G'' \<notin> set s \<Longrightarrow> s \<noteq> [] \<Longrightarrow> Trim (s @ ''G'') ''G'' = s"
proof -
  assume a: "CHR ''G'' \<notin> set s" and ne: "s \<noteq> []"
  then have hd: "hd s \<noteq> CHR ''G''" and "last s \<noteq> CHR ''G''"
    by (metis hd_in_set, metis last_in_set)
  from ne hd have d1: "dropWhile (\<lambda>c. c = CHR ''G'') (s @ ''G'') = s @ ''G''"
    by (cases s) auto
  from ne \<open>last s \<noteq> CHR ''G''\<close> have d2: "dropWhile (\<lambda>c. c = CHR ''G'') (rev s) = rev s"
    by (cases s rule: rev_cases) auto
  show ?thesis by (simp add: Trim_def d1 d2)
qed

lemma assertString_not_string:
  "\<forall>s. v \<noteq> VStr s \<Longrightarrow> assertString v = Inl (Panic TypeAssertion)"
  by (cases v) (auto simp: assertString_def)

lemma diskStorageParam_Inl:
  "diskStorageParam rt vmID action diskID diskConfMap = Inl e \<Longrightarrow> e = Panic TypeAssertion"
  by (auto simp: diskStorageParam_def Let_def split: if_splits sum.splits dest: assertString_Inl)

lemma encodeDisk_Inl:
  "encodeDisk rt vmID action diskID diskConfMap params = Inl e \<Longrightarrow> e = Panic TypeAssertion"
  by (auto simp: encodeDisk_def Let_def split: sum.splits
        dest: assertString_Inl diskStorageParam_Inl)

subsection \<open>The scalar parameters survive the encoders\<close>

lemma digitsOf_nonempty: "digitsOf n \<noteq> []"
  by (subst digitsOf.simps) simp

lemma last_digitsOf: "last (digitsOf n) = ''0123456789'' ! (n mod 10)"
  by (subst digitsOf.simps) (simp add: digitsOf_nonempty)

lemma last_Itoa: "isDigit (last (Itoa i))"
proof -
  have "n mod 10 < length ''0123456789''" for n :: nat by simp
  then have "''0123456789'' ! (n mod 10) \<in> set ''0123456789''" for n :: nat
    by (rule nth_mem)
  then have "isDigit (last (digitsOf n))" for n
    unfolding isDigit_def last_digitsOf .
  then show ?thesis by (simp add: Itoa_def digitsOf_nonempty)
qed

lemma Itoa_nonempty: "Itoa i \<noteq> []"
  by (simp add: Itoa_def digitsOf_nonempty)

lemma device_name_ends_in_digit: "isDigit (last (name @ Itoa i))"
  by (simp add: Itoa_nonempty last_Itoa)

lemma encodeDisk_keeps:
  assumes "encodeDisk rt vmID action diskID diskConfMap params = Inr params'"
    and "\<not> isDigit (last k)"
  shows "index params' k = index params k"
proof -
  from assms(1) obtain name v where "params' = AList.update (name @ Itoa diskID) v params"
    by (auto simp: encodeDisk_def Let_def split: sum.splits)
  moreover from assms(2) device_name_ends_in_digit [of name diskID] have "k \<noteq> name @ Itoa diskID"
    by auto
  ultimately show ?thesis by (simp add: index_update_other)
qed

lemma encodeDisks_keeps:
  "encodeDisks rt vmID action devs params = Inr params' \<Longrightarrow> \<not> isDigit (last k)
     \<Longrightarrow> index params' k = index params k"
proof (induction devs arbitrary: params)
  case Nil
  then show ?case by simp
next
  case (Cons dev devs)
  obtain diskID diskConfMap where dev: "dev = (diskID, diskConfMap)" by (cases dev)
  from Cons.prems(1) dev obtain p1 where
    p1: "encodeDisk rt vmID action diskID diskConfMap params = Inr p1"
    and rest: "encodeDisks rt vmID action devs p1 = Inr params'"
    by (auto split: sum.splits)
  from Cons.IH [OF rest Cons.prems(2)] encodeDisk_keeps [OF p1 Cons.prems(2)]
  show ?case by simp
qed

lemma encodeNic_keeps:
  assumes "encodeNic rt vmID nicID nicConfMap params = Inr (nicConfMap', params')"
    and "\<not> isDigit (last k)"
  shows "index params' k = index params k"
proof -
  from assms(1) obtain v where "params' = AList.update (''net'' @ Itoa nicID) v params"
    by (auto simp: encodeNic_def Let_def split: sum.splits)
  moreover from assms(2) device_name_ends_in_digit [of "''net''" nicID] have "k \<noteq> ''net'' @ Itoa nicID"
    by auto
  ultimately show ?thesis by (simp add: index_update_other)
qed

lemma encodeNics_keeps:
  "encodeNics rt vmID devs params = Inr (devs', params') \<Longrightarrow> \<not> isDigit (last k)
     \<Longrightarrow> index params' k = index params k"
proof (induction devs arbitrary: params devs')
  case Nil
  then show ?case by simp
next
  case (Cons dev devs)
  obtain nicID nicConfMap where dev: "dev = (nicID, nicConfMap)" by (cases dev)
  from Cons.prems(1) dev obtain m1 p1 rest' where
    p1: "encodeNic rt vmID nicID nicConfMap params = Inr (m1, p1)"
    and rest: "encodeNics rt vmID devs p1 = Inr (rest', params')"
    by (auto split: sum.splits)
  from Cons.IH [OF rest Cons.prems(2)] encodeNic_keeps [OF p1 Cons.prems(2)]
  show ?case by simp
qed

lemma CreateQemuDisksParams_keeps:
  "CreateQemuDisksParams rt c vmID action params = Inr (disks, params') \<Longrightarrow> \<not> isDigit (last k)
     \<Longrightarrow> index params' k = index params k"
  by (auto simp: CreateQemuDisksParams_def split: sum.splits dest: encodeDisks_keeps)

lemma CreateQemuNetworksParams_keeps:
  "CreateQemuNetworksParams rt c vmID params = Inr (networks, params') \<Longrightarrow> \<not> isDigit (last k)
     \<Longrightarrow> index params' k = index params k"
  by (auto simp: CreateQemuNetworksParams_def split: sum.splits dest: encodeNics_keeps)

lemma UpdateConfig_encoded:
  assumes "CreateQemuDisksParams rt config (vmId vmr) ''update''
             [(''description'', VStr (Description config)), (''onboot'', VBool (Onboot config)),
              (''sockets'', VInt (QemuSockets config)), (''cores'', VInt (QemuCores config)),
              (''memory'', VInt (Memory config))] = Inr (disks, p1)"
    and "CreateQemuNetworksParams rt (config\<lparr>QemuDisks := disks\<rparr>) (vmId vmr) p1 = Inr (networks, p2)"
  shows "UpdateConfig rt client config vmr h
           = (case SetVmConfig client h vmr p2 of
                Some err \<Rightarrow> Inl (Err err)
              | None \<Rightarrow> Inr (config\<lparr>QemuDisks := disks, QemuNetworks := networks\<rparr>),
              h @ [Request (ReqSetVmConfig vmr p2)])"
    and "index p2 ''description'' = VStr (Description config)"
    and "index p2 ''sockets'' = VInt (QemuSockets config)"
    and "index p2 ''cores'' = VInt (QemuCores config)"
    and "index p2 ''memory'' = VInt (Memory config)"
    and "index p2 ''onboot'' = VBool (Onboot config)"
proof -
  show "UpdateConfig rt client config vmr h
           = (case SetVmConfig client h vmr p2 of
                Some err \<Rightarrow> Inl (Err err)
              | None \<Rightarrow> Inr (config\<lparr>QemuDisks := disks, QemuNetworks := networks\<rparr>),
              h @ [Request (ReqSetVmConfig vmr p2)])"
    using assms by (simp add: UpdateConfig_def split: option.splits)
  have keep: "index p2 k = index [(''description'', VStr (Description config)), (''onboot'', VBool (Onboot config)),
              (''sockets'', VInt (QemuSockets config)), (''cores'', VInt (QemuCores config)),
              (''memory'', VInt (Memory config))] k" if "\<not> isDigit (last k)" for k
    using CreateQemuNetworksParams_keeps [OF assms(2) that]
      CreateQemuDisksParams_keeps [OF assms(1) that] by simp
  show "index p2 ''description'' = VStr (Description config)"
    by (subst keep) (simp_all add: isDigit_def index_def)
  show "index p2 ''sockets'' = VInt (QemuSockets config)"
    by (subst keep) (simp_all add: isDigit_def index_def)
  show "index p2 ''cores'' = VInt (QemuCores config)"
    by (subst keep) (simp_all add: isDigit_def index_def)
  show "index p2 ''memory'' = VInt (Memory config)"
    by (subst keep) (simp_all add: isDigit_def index_def)
  show "index p2 ''onboot'' = VBool (Onboot config)"
    by (subst keep) (simp_all add: isDigit_def index_def)
qed

lemma UpdateConfig_panics:
  "CreateQemuDisksParams rt config (vmId vmr) ''update''
             [(''description'', VStr (Description config)), (''onboot'', VBool (Onboot config)),
              (''sockets'', VInt (QemuSockets config)), (''cores'', VInt (QemuCores config)),
              (''memory'', VInt (Memory config))] = Inl e
   \<Longrightarrow> UpdateConfig rt client config vmr h = (Inl e, h)"
  by (simp add: UpdateConfig_def)

subsection \<open>Generated hardware addresses\<close>

lemma upper_hex_digit:
  assumes "n < 16"
  shows "upperChar (''0123456789abcdef'' ! n) \<in> set ''0123456789ABCDEF''"
proof -
  from assms have "n \<in> set [0..<16]" by simp
  then show ?thesis
    by (simp add: upt_conv_Cons upperChar_def) (elim disjE; simp)
qed

lemma upper_hexByte:
  obtains a b where "map upperChar (hexByte x) = [a, b]"
    "a \<in> set ''0123456789ABCDEF''" "b \<in> set ''0123456789ABCDEF''"
proof -
  have "unat x < 256" using unsigned_less [of x, where 'a = nat] by simp
  then have "unat x div 16 < 16" by simp
  moreover have "unat x mod 16 < 16" by simp
  ultimately show ?thesis
    using upper_hex_digit [of "unat x div 16"] upper_hex_digit [of "unat x mod 16"]
    by (intro that [of "upperChar (''0123456789abcdef'' ! (unat x div 16))"
                       "upperChar (''0123456789abcdef'' ! (unat x mod 16))"])
       (simp_all add: hexByte_def)
qed

lemma upperChar_colon: "upperChar (CHR '':'') = CHR '':''"
  by (simp add: upperChar_def)

lemma generateMac_shape: "isUpperMac (generateMac rt vmID nicID)"
proof -
  let ?r = "randRead rt (vmID + nicID)"
  have bytes: "map ?r [0..<6] = [?r 0, ?r (Suc 0), ?r 2, ?r 3, ?r 4, ?r 5]"
    by (simp add: upt_conv_Cons eval_nat_numeral)
  obtain a0 b0 where p0: "map upperChar (hexByte (?r 0)) = [a0, b0]"
    "a0 \<in> set ''0123456789ABCDEF''" "b0 \<in> set ''0123456789ABCDEF''"
    by (rule upper_hexByte [of "?r 0"])
  obtain a1 b1 where p1: "map upperChar (hexByte (?r (Suc 0))) = [a1, b1]"
    "a1 \<in> set ''0123456789ABCDEF''" "b1 \<in> set ''0123456789ABCDEF''"
    by (rule upper_hexByte [of "?r (Suc 0)"])
  obtain a2 b2 where p2: "map upperChar (hexByte (?r 2)) = [a2, b2]"
    "a2 \<in> set ''0123456789ABCDEF''" "b2 \<in> set ''0123456789ABCDEF''"
    by (rule upper_hexByte [of "?r 2"])
  obtain a3 b3 where p3: "map upperChar (hexByte (?r 3)) = [a3, b3]"
    "a3 \<in> set ''0123456789ABCDEF''" "b3 \<in> set ''0123456789ABCDEF''"
    by (rule upper_hexByte [of "?r 3"])
  obtain a4 b4 where p4: "map upperChar (hexByte (?r 4)) = [a4, b4]"
    "a4 \<in> set ''0123456789ABCDEF''" "b4 \<in> set ''0123456789ABCDEF''"
    by (rule upper_hexByte [of "?r 4"])
  obtain a5 b5 where p5: "map upperChar (hexByte (?r 5)) = [a5, b5]"
    "a5 \<in> set ''0123456789ABCDEF''" "b5 \<in> set ''0123456789ABCDEF''"
    by (rule upper_hexByte [of "?r 5"])
  have "generateMac rt vmID nicID
      = [a0, b0, CHR '':'', a1, b1, CHR '':'', a2, b2, CHR '':'', a3, b3, CHR '':'',
         a4, b4, CHR '':'', a5, b5]"
    unfolding generateMac_def hardwareAddrString_def ToUpper_def bytes
    by (simp add: p0(1) p1(1) p2(1) p3(1) p4(1) p5(1) upperChar_colon)
  with p0 p1 p2 p3 p4 p5 show ?thesis
    unfolding isUpperMac_def by simp
qed

lemma generateMac_nonempty: "generateMac rt vmID nicID \<noteq> []"
  using generateMac_shape [of rt vmID nicID] by (auto simp: isUpperMac_def)

lemma encodeNic_generates:
  assumes "index nicConfMap ''macaddr'' = VStr []" and "index nicConfMap ''bridge'' = VStr bridge"
  shows "\<exists>more. encodeNic rt vmID nicID nicConfMap params
           = Inr (AList.update ''macaddr'' (VStr (generateMac rt vmID nicID)) nicConfMap,
                  AList.update (''net'' @ Itoa nicID)
                    (VStr (''macaddr='' @ generateMac rt vmID nicID @ more)) params)"
proof -
  let ?mac = "generateMac rt vmID nicID"
  let ?m = "AList.update ''macaddr'' (VStr ?mac) nicConfMap"
  let ?ign = "[''id'', ''bridge'', ''macaddr'']"
  let ?tail = "(if bridge \<noteq> ''nat'' then [''bridge='' @ bridge] else [])
                 @ createDeviceParam rt [] ?m ?ign"
  have br: "index ?m ''bridge'' = VStr bridge"
    using assms(2) by (simp add: index_update_other)
  have acc: "createDeviceParam rt ([''macaddr='' @ ?mac] @ (if bridge \<noteq> ''nat'' then [''bridge='' @ bridge] else [])) ?m ?ign
      = (''macaddr='' @ ?mac) # ?tail"
    by (subst createDeviceParam_acc) simp
  have join: "Join ((''macaddr='' @ ?mac) # ?tail) '','' 
      = ''macaddr='' @ ?mac @ (if ?tail = [] then [] else '','' @ Join ?tail '','')"
    by (cases ?tail) simp_all
  have "encodeNic rt vmID nicID nicConfMap params
      = Inr (?m, AList.update (''net'' @ Itoa nicID)
                   (VStr (Join ((''macaddr='' @ ?mac) # ?tail) '','')) params)"
    using assms br acc by (auto simp: encodeNic_def assertString_def Let_def fmtv_def)
  then show ?thesis unfolding join by blast
qed

lemma encodeNic_second_pass:
  assumes "index nicConfMap ''macaddr'' = VStr []"
    and "encodeNic rt vmID nicID nicConfMap params = Inr (nicConfMap', params')"
  shows "encodeNic rt vmID nicID nicConfMap' params = Inr (nicConfMap', params')"
proof -
  let ?mac = "generateMac rt vmID nicID"
  from assms have m': "nicConfMap' = AList.update ''macaddr'' (VStr ?mac) nicConfMap"
    by (auto simp: encodeNic_def assertString_def Let_def split: sum.splits)
  then have mac: "index nicConfMap' ''macaddr'' = VStr ?mac" by (simp add: index_update_same)
  from assms m' generateMac_nonempty [of rt vmID nicID] mac show ?thesis
    by (auto simp: encodeNic_def assertString_def Let_def split: sum.splits)
qed

lemma encodeNics_member:
  "encodeNics rt vmID devs params = Inr (devs', params') \<Longrightarrow> (nicID, m) \<in> set devs
     \<Longrightarrow> \<exists>m' p p'. encodeNic rt vmID nicID m p = Inr (m', p') \<and> (nicID, m') \<in> set devs'"
proof (induction devs arbitrary: params devs')
  case Nil
  then show ?case by simp
next
  case (Cons dev devs)
  obtain i d where dev: "dev = (i, d)" by (cases dev)
  from Cons.prems(1) dev obtain d1 p1 rest' where
    p1: "encodeNic rt vmID i d params = Inr (d1, p1)"
    and rest: "encodeNics rt vmID devs p1 = Inr (rest', params')"
    and devs': "devs' = (i, d1) # rest'"
    by (auto split: sum.splits)
  show ?case
  proof (cases "(nicID, m) = (i, d)")
    case True
    with p1 devs' show ?thesis by auto
  next
    case False
    with Cons.prems(2) dev have "(nicID, m) \<in> set devs" by auto
    from Cons.IH [OF rest this] devs' show ?thesis by auto
  qed
qed

subsection \<open>Decimal rendering and parsing\<close>

lemma parseDigits_snoc:
  "parseDigits acc (xs @ [c])
     = (case parseDigits acc xs of
          None \<Rightarrow> None
        | Some a \<Rightarrow> if isDigit c then Some (a * 10 + digitVal c) else None)"
  by (induction xs arbitrary: acc) auto

lemma decimal_digit:
  assumes "n < 10"
  shows "isDigit (''0123456789'' ! n) \<and> digitVal (''0123456789'' ! n) = n"
proof -
  from assms have "n \<in> set [0..<10]" by simp
  then show ?thesis
    by (simp add: upt_conv_Cons isDigit_def digitVal_def) (elim disjE; simp)
qed

lemma parseDigits_digitsOf: "parseDigits 0 (digitsOf n) = Some n"
proof (induction n rule: digitsOf.induct)
  case (1 n)
  show ?case
  proof (cases "n < 10")
    case True
    with decimal_digit [OF True] show ?thesis
      by (subst digitsOf.simps) simp
  next
    case False
    have "n mod 10 < 10" by simp
    from decimal_digit [OF this] "1.IH" [OF False] False show ?thesis
      by (subst digitsOf.simps) (simp add: parseDigits_snoc)
  qed
qed

lemma digitsOf_digits: "c \<in> set (digitsOf n) \<Longrightarrow> isDigit c"
proof (induction n rule: digitsOf.induct)
  case (1 n)
  show ?case
  proof (cases "n < 10")
    case True
    with "1.prems" decimal_digit [OF True] show ?thesis
      by (subst (asm) digitsOf.simps) simp
  next
    case False
    have "n mod 10 < 10" by simp
    from decimal_digit [OF this] "1.IH" [OF False] False "1.prems" show ?thesis
      by (subst (asm) digitsOf.simps) auto
  qed
qed

lemma digitsOf_no_sign: "\<exists>c cs. digitsOf n = c # cs \<and> c \<noteq> CHR ''+'' \<and> c \<noteq> CHR ''-''"
proof -
  obtain c cs where cs: "digitsOf n = c # cs"
    using digitsOf_nonempty [of n] by (cases "digitsOf n") auto
  then have "isDigit c" using digitsOf_digits [of c n] by simp
  then have "c \<noteq> CHR ''+'' \<and> c \<noteq> CHR ''-''" by (auto simp: isDigit_def)
  with cs show ?thesis by blast
qed

lemma ParseInt_Itoa: "ParseInt (Itoa i) = Some i"
proof (cases "sint i < 0")
  case True
  let ?un = "nat (- sint i)"
  have "- (2 ^ 63) \<le> sint i" using sint_ge [of i] by simp
  with True have le: "?un \<le> 2 ^ 63" by simp
  have "of_nat ?un = (of_int (- sint i) :: goint)" using True by simp
  then have inv: "- (of_nat ?un :: goint) = i" by simp
  from True le inv show ?thesis
    by (simp add: Itoa_def ParseInt_def digitsOf_nonempty parseDigits_digitsOf)
next
  case False
  let ?un = "nat (sint i)"
  have "sint i < 2 ^ 63" using sint_lt [of i] by simp
  with False have lt: "?un < 2 ^ 63" by simp
  have inv: "(of_nat ?un :: goint) = i" using False by simp
  obtain c cs where cs: "digitsOf ?un = c # cs" "c \<noteq> CHR ''+''" "c \<noteq> CHR ''-''"
    using digitsOf_no_sign [of ?un] by blast
  have "parseDigits 0 (c # cs) = Some ?un" using parseDigits_digitsOf [of ?un] cs(1) by simp
  with False lt inv cs show ?thesis
    by (simp add: Itoa_def ParseInt_def del: parseDigits.simps)
qed

lemma Split_key_value:
  "sep \<notin> set key \<Longrightarrow> Split (key @ sep # v) sep = key # Split v sep"
  by (induction key) auto

lemma ParseInt_one: "ParseInt ''1'' = Some 1"
  by (simp add: ParseInt_def isDigit_def digitVal_def)

lemma ParseInt_zero: "ParseInt ''0'' = Some 0"
  by (simp add: ParseInt_def isDigit_def digitVal_def)

subsection \<open>One round of the fetch loop\<close>

lemma fetchLoop_unlocked_step:
  assumes "ii < 3" and "GetVmConfig client h vmr = Inr vmConfig'"
    and "index vmConfig' ''lock'' = VNil"
  shows "fetchLoop client vmr ii vmConfig h = (Inr vmConfig', h @ [Request (ReqGetVmConfig vmr)])"
  using assms by (subst fetchLoop.simps) simp

lemma fetchLoop_failed_step:
  assumes "ii < 3" and "GetVmConfig client h vmr = Inl err"
  shows "fetchLoop client vmr ii vmConfig h = (Inl (Fatal err), h @ [Request (ReqGetVmConfig vmr)])"
  using assms by (subst fetchLoop.simps) simp

subsection \<open>Tokens the generic pass emits\<close>

lemma createDeviceParam_emits:
  "(key, v) \<in> set m \<Longrightarrow> \<not> inArray ignoredKeys key \<Longrightarrow> confValue v = Some cv
     \<Longrightarrow> key @ ''='' @ fmtv rt cv \<in> set (createDeviceParam rt p m ignoredKeys)"
proof (induction m arbitrary: p)
  case Nil
  then show ?case by simp
next
  case (Cons kv m)
  obtain k w where kv: "kv = (k, w)" by (cases kv)
  show ?case
  proof (cases "(key, v) = (k, w)")
    case True
    with Cons.prems kv
    have "createDeviceParam rt p (kv # m) ignoredKeys
        = (p @ [key @ ''='' @ fmtv rt cv]) @ createDeviceParam rt [] m ignoredKeys"
      using createDeviceParam_acc [of rt "p @ [key @ ''='' @ fmtv rt cv]" m ignoredKeys] by simp
    then show ?thesis by simp
  next
    case False
    with Cons.prems(1) kv have "(key, v) \<in> set m" by auto
    from Cons.IH [OF this Cons.prems(2,3)] kv show ?thesis
      by (auto split: option.splits)
  qed
qed

lemma confValue_emitted:
  "v = VBool True \<or> (\<exists>s. v = VStr s \<and> s \<noteq> []) \<or> (\<exists>i. v = VInt i \<and> 0 <s i)
     \<Longrightarrow> confValue v = Some (if v = VBool True then VStr ''1'' else v)"
  by (auto simp: confValue_def)

subsection \<open>The bytes of a generated address\<close>

lemma hexVal_upper:
  assumes "n < 16"
  shows "hexVal (upperChar (''0123456789abcdef'' ! n)) = n"
proof -
  from assms have "n \<in> set [0..<16]" by simp
  then show ?thesis
    by (simp add: upt_conv_Cons upperChar_def hexVal_def) (elim disjE; simp)
qed

lemma hexByte_value:
  "map upperChar (hexByte x) = [a, b] \<Longrightarrow> of_nat (hexVal a) * 16 + of_nat (hexVal b) = x"
proof -
  assume ab: "map upperChar (hexByte x) = [a, b]"
  have "unat x < 256" using unsigned_less [of x, where 'a = nat] by simp
  then have hi: "unat x div 16 < 16" by simp
  have lo: "unat x mod 16 < 16" by simp
  from ab have "a = upperChar (''0123456789abcdef'' ! (unat x div 16))"
    "b = upperChar (''0123456789abcdef'' ! (unat x mod 16))"
    by (simp_all add: hexByte_def)
  with hexVal_upper [OF hi] hexVal_upper [OF lo]
  have "hexVal a * 16 + hexVal b = unat x" by simp
  then have "(of_nat (hexVal a * 16 + hexVal b) :: 8 word) = x" by simp
  then show ?thesis by simp
qed

lemma generateMac_bytes:
  "parseMac (generateMac rt vmID nicID) = map (randRead rt (vmID + nicID)) [0..<6]"
proof -
  let ?r = "randRead rt (vmID + nicID)"
  have bytes: "map ?r [0..<6] = [?r 0, ?r (Suc 0), ?r 2, ?r 3, ?r 4, ?r 5]"
    by (simp add: upt_conv_Cons eval_nat_numeral)
  obtain a0 b0 where p0: "map upperChar (hexByte (?r 0)) = [a0, b0]"
    by (rule upper_hexByte [of "?r 0"])
  obtain a1 b1 where p1: "map upperChar (hexByte (?r (Suc 0))) = [a1, b1]"
    by (rule upper_hexByte [of "?r (Suc 0)"])
  obtain a2 b2 where p2: "map upperChar (hexByte (?r 2)) = [a2, b2]"
    by (rule upper_hexByte [of "?r 2"])
  obtain a3 b3 where p3: "map upperChar (hexByte (?r 3)) = [a3, b3]"
    by (rule upper_hexByte [of "?r 3"])
  obtain a4 b4 where p4: "map upperChar (hexByte (?r 4)) = [a4, b4]"
    by (rule upper_hexByte [of "?r 4"])
  obtain a5 b5 where p5: "map upperChar (hexByte (?r 5)) = [a5, b5]"
    by (rule upper_hexByte [of "?r 5"])
  have "generateMac rt vmID nicID
      = [a0, b0, CHR '':'', a1, b1, CHR '':'', a2, b2, CHR '':'', a3, b3, CHR '':'',
         a4, b4, CHR '':'', a5, b5]"
    unfolding generateMac_def hardwareAddrString_def ToUpper_def bytes
    by (simp add: p0 p1 p2 p3 p4 p5 upperChar_colon)
  then show ?thesis
    unfolding bytes
    by (simp add: hexByte_value [OF p0] hexByte_value [OF p1] hexByte_value [OF p2]
          hexByte_value [OF p3] hexByte_value [OF p4] hexByte_value [OF p5])
qed

lemma encodeNic_keeps_address:
  assumes "index m ''macaddr'' = VStr s" and "s \<noteq> []" and "index m ''bridge'' = VStr bridge"
  shows "encodeNic rt vmID nicID m params
           = Inr (m, AList.update (''net'' @ Itoa nicID)
                    (VStr (Join ((''macaddr='' @ s)
                       # (if bridge \<noteq> ''nat'' then [''bridge='' @ bridge] else [])
                         @ createDeviceParam rt [] m [''id'', ''bridge'', ''macaddr'']) '','')) params)"
proof -
  let ?ign = "[''id'', ''bridge'', ''macaddr'']"
  have acc: "createDeviceParam rt ([''macaddr='' @ s] @ (if bridge \<noteq> ''nat'' then [''bridge='' @ bridge] else [])) m ?ign
      = (''macaddr='' @ s) # (if bridge \<noteq> ''nat'' then [''bridge='' @ bridge] else [])
          @ createDeviceParam rt [] m ?ign"
    by (subst createDeviceParam_acc) simp
  from assms acc show ?thesis
    by (auto simp: encodeNic_def assertString_def Let_def fmtv_def)
qed

lemma encodeNic_generates_exact:
  assumes "index nicConfMap ''macaddr'' = VStr []" and "index nicConfMap ''bridge'' = VStr bridge"
  shows "encodeNic rt vmID nicID nicConfMap params
           = Inr (AList.update ''macaddr'' (VStr (generateMac rt vmID nicID)) nicConfMap,
                  AList.update (''net'' @ Itoa nicID)
                    (VStr (Join ((''macaddr='' @ generateMac rt vmID nicID)
                       # (if bridge \<noteq> ''nat'' then [''bridge='' @ bridge] else [])
                         @ createDeviceParam rt []
                             (AList.update ''macaddr'' (VStr (generateMac rt vmID nicID)) nicConfMap)
                             [''id'', ''bridge'', ''macaddr'']) '','')) params)"
proof -
  let ?mac = "generateMac rt vmID nicID"
  let ?m = "AList.update ''macaddr'' (VStr ?mac) nicConfMap"
  let ?ign = "[''id'', ''bridge'', ''macaddr'']"
  have br: "index ?m ''bridge'' = VStr bridge"
    using assms(2) by (simp add: index_update_other)
  have acc: "createDeviceParam rt ([''macaddr='' @ ?mac] @ (if bridge \<noteq> ''nat'' then [''bridge='' @ bridge] else [])) ?m ?ign
      = (''macaddr='' @ ?mac) # (if bridge \<noteq> ''nat'' then [''bridge='' @ bridge] else [])
          @ createDeviceParam rt [] ?m ?ign"
    by (subst createDeviceParam_acc) simp
  show ?thesis
    using assms br acc by (auto simp: encodeNic_def assertString_def Let_def fmtv_def)
qed

lemma Join_head:
  "Join (a # rest) sep = a @ (if rest = [] then [] else sep @ Join rest sep)"
  by (cases rest) simp_all

section \<open>The claims\<close>


text \<open>
  Claim C1, as the code has it. While the configuration fetched shows a lock,
  \<^verbatim>\<open>NewConfigQemuFromApi\<close> sleeps 8 seconds and fetches again, up to three fetches in all;
  it sleeps after every locked fetch, the third included. The first answer without a
  lock ends the fetching, on the first, second or third fetch, and that answer is
  decoded; a failed fetch goes to \<^verbatim>\<open>log.Fatal\<close>. After three locked answers (so against a
  client that is always locked: exactly 3 fetches and 3 sleeps, 24 seconds) it returns
  the error \<^verbatim>\<open>vm locked, could not obtain config\<close>.
\<close>

theorem NewConfigQemuFromApi_lock_retry:
  "let fetch = Request (ReqGetVmConfig vmr);
       h1 = h @ [fetch, Sleep 8];
       h2 = h @ [fetch, Sleep 8, fetch, Sleep 8]
   in (\<forall>err. GetVmConfig client h vmr = Inl err
         \<longrightarrow> NewConfigQemuFromApi rt client vmr h = (Inl (Fatal err), h @ [fetch]))
    \<and> (\<forall>c1. GetVmConfig client h vmr = Inr c1 \<and> index c1 ''lock'' = VNil
         \<longrightarrow> NewConfigQemuFromApi rt client vmr h = (configFromApi rt c1, h @ [fetch]))
    \<and> (\<forall>c1 err. GetVmConfig client h vmr = Inr c1 \<and> index c1 ''lock'' \<noteq> VNil
           \<and> GetVmConfig client h1 vmr = Inl err
         \<longrightarrow> NewConfigQemuFromApi rt client vmr h = (Inl (Fatal err), h1 @ [fetch]))
    \<and> (\<forall>c1 c2. GetVmConfig client h vmr = Inr c1 \<and> index c1 ''lock'' \<noteq> VNil
           \<and> GetVmConfig client h1 vmr = Inr c2 \<and> index c2 ''lock'' = VNil
         \<longrightarrow> NewConfigQemuFromApi rt client vmr h = (configFromApi rt c2, h1 @ [fetch]))
    \<and> (\<forall>c1 c2 err. GetVmConfig client h vmr = Inr c1 \<and> index c1 ''lock'' \<noteq> VNil
           \<and> GetVmConfig client h1 vmr = Inr c2 \<and> index c2 ''lock'' \<noteq> VNil
           \<and> GetVmConfig client h2 vmr = Inl err
         \<longrightarrow> NewConfigQemuFromApi rt client vmr h = (Inl (Fatal err), h2 @ [fetch]))
    \<and> (\<forall>c1 c2 c3. GetVmConfig client h vmr = Inr c1 \<and> index c1 ''lock'' \<noteq> VNil
           \<and> GetVmConfig client h1 vmr = Inr c2 \<and> index c2 ''lock'' \<noteq> VNil
           \<and> GetVmConfig client h2 vmr = Inr c3 \<and> index c3 ''lock'' = VNil
         \<longrightarrow> NewConfigQemuFromApi rt client vmr h = (configFromApi rt c3, h2 @ [fetch]))
    \<and> (\<forall>c1 c2 c3. GetVmConfig client h vmr = Inr c1 \<and> index c1 ''lock'' \<noteq> VNil
           \<and> GetVmConfig client h1 vmr = Inr c2 \<and> index c2 ''lock'' \<noteq> VNil
           \<and> GetVmConfig client h2 vmr = Inr c3 \<and> index c3 ''lock'' \<noteq> VNil
         \<longrightarrow> NewConfigQemuFromApi rt client vmr h
               = (Inl (Err ''vm locked, could not obtain config''), h2 @ [fetch, Sleep 8]))
    \<and> ((\<forall>h'. \<exists>vmConfig. GetVmConfig client h' vmr = Inr vmConfig \<and> index vmConfig ''lock'' \<noteq> VNil)
         \<longrightarrow> NewConfigQemuFromApi rt client vmr h
               = (Inl (Err ''vm locked, could not obtain config''),
                  h @ [fetch, Sleep 8, fetch, Sleep 8, fetch, Sleep 8])
             \<and> fetches (snd (NewConfigQemuFromApi rt client vmr h)) = fetches h + 3
             \<and> slept (snd (NewConfigQemuFromApi rt client vmr h)) = slept h + 24)
    \<and> fetches h + 1 \<le> fetches (snd (NewConfigQemuFromApi rt client vmr h))
    \<and> fetches (snd (NewConfigQemuFromApi rt client vmr h)) \<le> fetches h + 3
    \<and> slept (snd (NewConfigQemuFromApi rt client vmr h)) \<le> slept h + 24"
proof -
  let ?f = "Request (ReqGetVmConfig vmr)"
  let ?h1 = "h @ [?f, Sleep 8]"
  let ?h2 = "h @ [?f, Sleep 8, ?f, Sleep 8]"
  let ?N = "NewConfigQemuFromApi rt client vmr h"
  have app: "?h1 @ [?f, Sleep 8] = ?h2" by simp
  have r1f: "?N = (Inl (Fatal err), h @ [?f])" if "GetVmConfig client h vmr = Inl err" for err
    using fetchLoop_failed_step [OF _ that, of 0 "[]"] by (simp add: NewConfigQemuFromApi_def)
  have r1u: "?N = (configFromApi rt c1, h @ [?f])"
    if "GetVmConfig client h vmr = Inr c1" "index c1 ''lock'' = VNil" for c1
    using fetchLoop_unlocked_step [OF _ that, of 0 "[]"] that(2)
    by (simp add: NewConfigQemuFromApi_def)
  have s1: "fetchLoop client vmr 0 [] h = fetchLoop client vmr 1 c1 ?h1"
    if "GetVmConfig client h vmr = Inr c1" "index c1 ''lock'' \<noteq> VNil" for c1
    using fetchLoop_locked_step [OF _ that, of 0 "[]"] by simp
  have s2: "fetchLoop client vmr 1 c1 ?h1 = fetchLoop client vmr 2 c2 ?h2"
    if "GetVmConfig client ?h1 vmr = Inr c2" "index c2 ''lock'' \<noteq> VNil" for c1 c2
    using fetchLoop_locked_step [OF _ that, of 1 c1] by (simp add: numeral_2_eq_2)
  have s3: "fetchLoop client vmr 2 c2 ?h2 = (Inr c3, ?h2 @ [?f, Sleep 8])"
    if "GetVmConfig client ?h2 vmr = Inr c3" "index c3 ''lock'' \<noteq> VNil" for c2 c3
  proof -
    have "fetchLoop client vmr 2 c2 ?h2 = fetchLoop client vmr (2 + 1) c3 (?h2 @ [?f, Sleep 8])"
      by (rule fetchLoop_locked_step [OF _ that]) simp
    also have "\<dots> = (Inr c3, ?h2 @ [?f, Sleep 8])" by (rule fetchLoop_done) simp
    finally show ?thesis .
  qed
  have r2f: "?N = (Inl (Fatal err), ?h1 @ [?f])"
    if "GetVmConfig client h vmr = Inr c1" "index c1 ''lock'' \<noteq> VNil"
      "GetVmConfig client ?h1 vmr = Inl err" for c1 err
    using s1 [OF that(1,2)] fetchLoop_failed_step [OF _ that(3), of 1 c1]
    by (simp add: NewConfigQemuFromApi_def)
  have r2u: "?N = (configFromApi rt c2, ?h1 @ [?f])"
    if "GetVmConfig client h vmr = Inr c1" "index c1 ''lock'' \<noteq> VNil"
      "GetVmConfig client ?h1 vmr = Inr c2" "index c2 ''lock'' = VNil" for c1 c2
    using s1 [OF that(1,2)] fetchLoop_unlocked_step [OF _ that(3,4), of 1 c1] that(4)
    by (simp add: NewConfigQemuFromApi_def)
  have r3f: "?N = (Inl (Fatal err), ?h2 @ [?f])"
    if "GetVmConfig client h vmr = Inr c1" "index c1 ''lock'' \<noteq> VNil"
      "GetVmConfig client ?h1 vmr = Inr c2" "index c2 ''lock'' \<noteq> VNil"
      "GetVmConfig client ?h2 vmr = Inl err" for c1 c2 err
    using s1 [OF that(1,2)] s2 [OF that(3,4), of c1] fetchLoop_failed_step [OF _ that(5), of 2 c2]
    by (simp add: NewConfigQemuFromApi_def)
  have r3u: "?N = (configFromApi rt c3, ?h2 @ [?f])"
    if "GetVmConfig client h vmr = Inr c1" "index c1 ''lock'' \<noteq> VNil"
      "GetVmConfig client ?h1 vmr = Inr c2" "index c2 ''lock'' \<noteq> VNil"
      "GetVmConfig client ?h2 vmr = Inr c3" "index c3 ''lock'' = VNil" for c1 c2 c3
    using s1 [OF that(1,2)] s2 [OF that(3,4), of c1]
      fetchLoop_unlocked_step [OF _ that(5,6), of 2 c2] that(6)
    by (simp add: NewConfigQemuFromApi_def)
  have r3l: "?N = (Inl (Err ''vm locked, could not obtain config''), ?h2 @ [?f, Sleep 8])"
    if "GetVmConfig client h vmr = Inr c1" "index c1 ''lock'' \<noteq> VNil"
      "GetVmConfig client ?h1 vmr = Inr c2" "index c2 ''lock'' \<noteq> VNil"
      "GetVmConfig client ?h2 vmr = Inr c3" "index c3 ''lock'' \<noteq> VNil" for c1 c2 c3
    using s1 [OF that(1,2)] s2 [OF that(3,4), of c1] s3 [OF that(5,6), of c2] that(6)
    by (simp add: NewConfigQemuFromApi_def)
  have always: "?N = (Inl (Err ''vm locked, could not obtain config''),
                  h @ [?f, Sleep 8, ?f, Sleep 8, ?f, Sleep 8])"
    if a: "\<forall>h'. \<exists>vmConfig. GetVmConfig client h' vmr = Inr vmConfig \<and> index vmConfig ''lock'' \<noteq> VNil"
  proof -
    from a obtain c1 where c1: "GetVmConfig client h vmr = Inr c1" "index c1 ''lock'' \<noteq> VNil"
      by blast
    from a obtain c2 where c2: "GetVmConfig client ?h1 vmr = Inr c2" "index c2 ''lock'' \<noteq> VNil"
      by blast
    from a obtain c3 where c3: "GetVmConfig client ?h2 vmr = Inr c3" "index c3 ''lock'' \<noteq> VNil"
      by blast
    from r3l [OF c1 c2 c3] show ?thesis by simp
  qed
  have snd_eq: "snd ?N = snd (fetchLoop client vmr 0 [] h)"
    by (simp add: NewConfigQemuFromApi_def split: prod.splits sum.splits)
  from fetchLoop_cost [where h = h and client = client and vmr = vmr and ii = 0 and vmConfig = "[]"]
  have bounds: "fetches h + 1 \<le> fetches (snd ?N)" "fetches (snd ?N) \<le> fetches h + 3"
    "slept (snd ?N) \<le> slept h + 24"
    unfolding snd_eq by simp_all
  have cost: "fetches (snd ?N) = fetches h + 3 \<and> slept (snd ?N) = slept h + 24"
    if a: "\<forall>h'. \<exists>vmConfig. GetVmConfig client h' vmr = Inr vmConfig \<and> index vmConfig ''lock'' \<noteq> VNil"
    using always [OF a] by (simp add: fetches_append slept_append)
  show ?thesis
    unfolding Let_def
    using r1f r1u r2f r2u r3f r3u r3l always cost bounds by blast
qed

theorem NewConfigQemuFromApi_lock_retry_witness:
  "(\<forall>h'. \<exists>vmConfig. GetVmConfig lockedClient h' scenarioVm = Inr vmConfig
        \<and> index vmConfig ''lock'' \<noteq> VNil)
   \<and> NewConfigQemuFromApi exampleRuntime lockedClient scenarioVm []
       = (Inl (Err ''vm locked, could not obtain config''),
          [Request (ReqGetVmConfig scenarioVm), Sleep 8,
           Request (ReqGetVmConfig scenarioVm), Sleep 8,
           Request (ReqGetVmConfig scenarioVm), Sleep 8])
   \<and> GetVmConfig clearingClient [] scenarioVm = Inr [(''lock'', VStr ''clone'')]
   \<and> GetVmConfig clearingClient [Request (ReqGetVmConfig scenarioVm), Sleep 8] scenarioVm
       = Inr readyConfig
   \<and> index readyConfig ''lock'' = VNil
   \<and> NewConfigQemuFromApi exampleRuntime clearingClient scenarioVm []
       = (Inr \<lparr>Name = ''vm1'', Description = [], Onboot = True, Memory = 2048, Storage = [],
               QemuOs = ''l26'', QemuCores = 2, QemuSockets = 1, QemuIso = [],
               QemuDisks = Some [(0, [(''type'', VStr ''virtio''), (''storage'', VStr ''local''),
                                      (''file'', VStr ''vm-101-disk-1''), (''size'', VStr ''20G'')])],
               QemuNetworks = Some [(0, [(''model'', VStr ''virtio''),
                                         (''macaddr'', VStr ''AA:BB:CC:DD:EE:FF''),
                                         (''bridge'', VStr ''vmbr0'')])],
               FullClone = Some 1, QemuNicModel = [], QemuBrige = [], QemuVlanTag = - 1,
               DiskSize = 0\<rparr>,
          [Request (ReqGetVmConfig scenarioVm), Sleep 8, Request (ReqGetVmConfig scenarioVm)])"
proof -
  let ?f = "Request (ReqGetVmConfig scenarioVm)"
  have ready: "configFromApi exampleRuntime readyConfig
     = Inr \<lparr>Name = ''vm1'', Description = [], Onboot = True, Memory = 2048, Storage = [],
            QemuOs = ''l26'', QemuCores = 2, QemuSockets = 1, QemuIso = [],
            QemuDisks = Some [(0, [(''type'', VStr ''virtio''), (''storage'', VStr ''local''),
                                   (''file'', VStr ''vm-101-disk-1''), (''size'', VStr ''20G'')])],
            QemuNetworks = Some [(0, [(''model'', VStr ''virtio''),
                                      (''macaddr'', VStr ''AA:BB:CC:DD:EE:FF''),
                                      (''bridge'', VStr ''vmbr0'')])],
            FullClone = Some 1, QemuNicModel = [], QemuBrige = [], QemuVlanTag = - 1,
            DiskSize = 0\<rparr>"
    by (simp add: configFromApi_def readyConfig_def andThen_def assertString_def assertFloat_def
          index_def exampleRuntime_def Trim_def List.map_filter_def isDigit_def decodeDisk_def
          decodeNic_def digitsRe_def nonDigitsRe_def Atoi_def digitVal_def coerce_def ParseInt_def
          ParseBool_def)
  have always: "\<forall>h'. \<exists>vmConfig. GetVmConfig lockedClient h' scenarioVm = Inr vmConfig
        \<and> index vmConfig ''lock'' \<noteq> VNil"
    by (simp add: lockedClient_def index_def)
  have first: "GetVmConfig clearingClient [] scenarioVm = Inr [(''lock'', VStr ''clone'')]"
    by (simp add: clearingClient_def lockedClient_def)
  have locked1: "index [(''lock'', VStr ''clone'')] ''lock'' \<noteq> VNil"
    by (simp add: index_def)
  have second: "GetVmConfig clearingClient ([] @ [?f, Sleep 8]) scenarioVm = Inr readyConfig"
    by (simp add: clearingClient_def lockedClient_def)
  have unlocked2: "index readyConfig ''lock'' = VNil"
    by (simp add: readyConfig_def index_def)
  note L = NewConfigQemuFromApi_lock_retry
      [where rt = exampleRuntime and client = lockedClient and vmr = scenarioVm and h = "[]",
       unfolded Let_def]
  note C = NewConfigQemuFromApi_lock_retry
      [where rt = exampleRuntime and client = clearingClient and vmr = scenarioVm and h = "[]",
       unfolded Let_def]
  from L always have stuck: "NewConfigQemuFromApi exampleRuntime lockedClient scenarioVm []
       = (Inl (Err ''vm locked, could not obtain config''), [?f, Sleep 8, ?f, Sleep 8, ?f, Sleep 8])"
    by simp
  from C first locked1 second unlocked2
  have "NewConfigQemuFromApi exampleRuntime clearingClient scenarioVm []
      = (configFromApi exampleRuntime readyConfig, ([] @ [?f, Sleep 8]) @ [?f])"
    by blast
  then have cleared: "NewConfigQemuFromApi exampleRuntime clearingClient scenarioVm []
      = (configFromApi exampleRuntime readyConfig, [?f, Sleep 8, ?f])"
    by simp
  from second have second': "GetVmConfig clearingClient [?f, Sleep 8] scenarioVm = Inr readyConfig"
    by simp
  show ?thesis
    unfolding ready [symmetric]
    by (intro conjI always stuck first second' unlocked2 cleared)
qed

text \<open>
  The claim as stated fails on the delay: against the client that is always locked the
  run sleeps three intervals, 24 seconds, not two.
\<close>

theorem NewConfigQemuFromApi_lock_retry_counterexample:
  "fst (NewConfigQemuFromApi exampleRuntime lockedClient scenarioVm [])
     = Inl (Err ''vm locked, could not obtain config'')
   \<and> fetches (snd (NewConfigQemuFromApi exampleRuntime lockedClient scenarioVm [])) = 3
   \<and> slept (snd (NewConfigQemuFromApi exampleRuntime lockedClient scenarioVm [])) = 24
   \<and> slept (snd (NewConfigQemuFromApi exampleRuntime lockedClient scenarioVm [])) \<noteq> 16"
  by (simp add: NewConfigQemuFromApi_def fetchLoop.simps lockedClient_def index_def)

text \<open>
  Claim C2. In the generic attribute pass of the encoder, an attribute whose key is not
  ignored and whose value is boolean false, the empty string or an integer at most 0 adds
  nothing to the encoded list (the list is the one encoded without that attribute); a
  boolean true is emitted as \<^verbatim>\<open>key=1\<close>, in place; and every token the pass emits comes
  from an attribute that is not ignored and is none of the suppressed values.
\<close>

theorem createDeviceParam_suppression:
  assumes "\<not> inArray ignoredKeys key"
  shows "(v = VBool False \<or> v = VStr [] \<or> (\<exists>i. v = VInt i \<and> i \<le>s 0) \<longrightarrow>
            createDeviceParam rt p (xs @ (key, v) # ys) ignoredKeys
              = createDeviceParam rt p (xs @ ys) ignoredKeys)
       \<and> createDeviceParam rt p (xs @ (key, VBool True) # ys) ignoredKeys
            = createDeviceParam rt p xs ignoredKeys @ [key @ ''=1'']
                @ createDeviceParam rt [] ys ignoredKeys
       \<and> (\<forall>t \<in> set (createDeviceParam rt [] m ignoredKeys).
            \<exists>k w. (k, w) \<in> set m \<and> \<not> inArray ignoredKeys k
                  \<and> w \<noteq> VBool False \<and> w \<noteq> VStr [] \<and> (\<forall>i. w = VInt i \<longrightarrow> 0 <s i)
                  \<and> t = k @ ''='' @ (if w = VBool True then ''1'' else fmtv rt w))"
proof (intro conjI impI ballI)
  assume "v = VBool False \<or> v = VStr [] \<or> (\<exists>i. v = VInt i \<and> i \<le>s 0)"
  then have "confValue v = None" by (rule confValue_suppressed)
  with assms show "createDeviceParam rt p (xs @ (key, v) # ys) ignoredKeys
              = createDeviceParam rt p (xs @ ys) ignoredKeys"
    by (simp add: createDeviceParam_append)
next
  have "confValue (VBool True) = Some (VStr ''1'')" by (simp add: confValue_def)
  with assms have "createDeviceParam rt p (xs @ (key, VBool True) # ys) ignoredKeys
      = createDeviceParam rt (createDeviceParam rt p xs ignoredKeys @ [key @ ''=1'']) ys ignoredKeys"
    by (simp add: createDeviceParam_append fmtv_def)
  also have "\<dots> = (createDeviceParam rt p xs ignoredKeys @ [key @ ''=1''])
                    @ createDeviceParam rt [] ys ignoredKeys"
    by (rule createDeviceParam_acc)
  finally show "createDeviceParam rt p (xs @ (key, VBool True) # ys) ignoredKeys
            = createDeviceParam rt p xs ignoredKeys @ [key @ ''=1'']
                @ createDeviceParam rt [] ys ignoredKeys" by simp
next
  fix t assume "t \<in> set (createDeviceParam rt [] m ignoredKeys)"
  from createDeviceParam_tokens [OF this]
  obtain k w cv where kw: "(k, w) \<in> set m" "\<not> inArray ignoredKeys k"
    "confValue w = Some cv" "t = k @ ''='' @ fmtv rt cv" by auto
  from confValue_Some [OF kw(3)] kw
  show "\<exists>k w. (k, w) \<in> set m \<and> \<not> inArray ignoredKeys k
                  \<and> w \<noteq> VBool False \<and> w \<noteq> VStr [] \<and> (\<forall>i. w = VInt i \<longrightarrow> 0 <s i)
                  \<and> t = k @ ''='' @ (if w = VBool True then ''1'' else fmtv rt w)"
    by (intro exI [of _ k] exI [of _ w]) (auto simp: fmtv_def)
qed

theorem createDeviceParam_suppression_witness:
  "\<not> inArray [''id'', ''bridge'', ''macaddr''] ''firewall''
   \<and> createDeviceParam exampleRuntime [''bridge=vmbr0'']
        ([(''model'', VStr ''virtio'')] @ (''firewall'', VInt 0) # [(''tag'', VInt 7)])
        [''id'', ''bridge'', ''macaddr'']
      = [''bridge=vmbr0'', ''model=virtio'', ''tag=7'']
   \<and> createDeviceParam exampleRuntime [''bridge=vmbr0'']
        ([(''model'', VStr ''virtio'')] @ (''firewall'', VBool True) # [(''tag'', VInt 7)])
        [''id'', ''bridge'', ''macaddr'']
      = [''bridge=vmbr0'', ''model=virtio'', ''firewall=1'', ''tag=7'']"
  using createDeviceParam_suppression
    [of "[''id'', ''bridge'', ''macaddr'']" "''firewall''" "VInt 0" exampleRuntime
        "[''bridge=vmbr0'']" "[(''model'', VStr ''virtio'')]" "[(''tag'', VInt 7)]" "[]"]
  by (simp add: confValue_def fmtv_def Itoa_def digitsOf.simps word_sless_alt)

text \<open>
  Claim C3, as the code has it. Under the action \<^verbatim>\<open>update\<close>, a disk descriptor whose
  \<^verbatim>\<open>type\<close>, \<^verbatim>\<open>storage_type\<close> and \<^verbatim>\<open>cache\<close> are strings is stored under the key \<^verbatim>\<open>type\<close>
  followed by the index. Its value is the comma-joined list of \<^verbatim>\<open>size=<size>\<close>, then
  \<^verbatim>\<open>file=\<close> in the form the storage type selects (a storage type containing \<^verbatim>\<open>zfspool\<close>
  or \<^verbatim>\<open>lvm\<close>: \<^verbatim>\<open>file=<storage>:vm-<vmid>-disk-<idx+1>\<close>; any other:
  \<^verbatim>\<open>file=<storage>:<vmid>/vm-<vmid>-disk-<idx+1>.<format>\<close>), then \<^verbatim>\<open>cache=<cache>\<close> unless
  the cache is \<^verbatim>\<open>none\<close>, then the tokens of the generic pass over the descriptor: one
  \<^verbatim>\<open>key=value\<close> for every attribute outside the ignored keys that is true, a non-empty
  string or a positive integer, and no other. When one of the three is not a string the
  encoder panics. The scenario's descriptor with \<^verbatim>\<open>cache: none\<close> added gives
  \<^verbatim>\<open>size=20G,file=local:101/vm-101-disk-1.qcow2,format=qcow2\<close>.
\<close>

theorem update_disk_encoding:
  "(index diskConfMap ''type'' = VStr deviceType
      \<and> index diskConfMap ''storage_type'' = VStr storageType
      \<and> index diskConfMap ''cache'' = VStr cache
    \<longrightarrow> (let sizeToken = ''size='' @ fmtv rt (index diskConfMap ''size'');
              fileToken =
                (if Contains storageType ''zfspool'' \<or> Contains storageType ''lvm''
                 then ''file='' @ fmtv rt (index diskConfMap ''storage'') @ '':vm-'' @ Itoa vmID
                        @ ''-disk-'' @ Itoa (diskID + 1)
                 else ''file='' @ fmtv rt (index diskConfMap ''storage'') @ '':'' @ Itoa vmID
                        @ ''/vm-'' @ Itoa vmID @ ''-disk-'' @ Itoa (diskID + 1)
                        @ ''.'' @ fmtv rt (index diskConfMap ''format''));
              more = (if cache \<noteq> ''none'' then [''cache='' @ cache] else [])
                       @ createDeviceParam rt [] diskConfMap
                           [''id'', ''type'', ''storage'', ''storage_type'', ''size'', ''cache'']
          in encodeDisk rt vmID ''update'' diskID diskConfMap params
               = Inr (AList.update (deviceType @ Itoa diskID)
                        (VStr (Join (sizeToken # fileToken # more) '','')) params)
             \<and> Join (sizeToken # fileToken # more) '',''
                 = sizeToken @ '','' @ fileToken
                     @ (if more = [] then [] else '','' @ Join more '','')))
   \<and> ((\<forall>s. index diskConfMap ''type'' \<noteq> VStr s)
        \<or> (\<forall>s. index diskConfMap ''storage_type'' \<noteq> VStr s)
        \<or> (\<forall>s. index diskConfMap ''cache'' \<noteq> VStr s)
    \<longrightarrow> encodeDisk rt vmID ''update'' diskID diskConfMap params = Inl (Panic TypeAssertion))
   \<and> (\<forall>key v. (key, v) \<in> set diskConfMap
         \<and> key \<notin> set [''id'', ''type'', ''storage'', ''storage_type'', ''size'', ''cache'']
         \<and> (v = VBool True \<or> (\<exists>s. v = VStr s \<and> s \<noteq> []) \<or> (\<exists>i. v = VInt i \<and> 0 <s i))
       \<longrightarrow> key @ ''='' @ (if v = VBool True then ''1'' else fmtv rt v)
             \<in> set (createDeviceParam rt [] diskConfMap
                      [''id'', ''type'', ''storage'', ''storage_type'', ''size'', ''cache'']))
   \<and> (\<forall>t \<in> set (createDeviceParam rt [] diskConfMap
                      [''id'', ''type'', ''storage'', ''storage_type'', ''size'', ''cache'']).
         \<exists>key v. (key, v) \<in> set diskConfMap
           \<and> key \<notin> set [''id'', ''type'', ''storage'', ''storage_type'', ''size'', ''cache'']
           \<and> (v = VBool True \<or> (\<exists>s. v = VStr s \<and> s \<noteq> []) \<or> (\<exists>i. v = VInt i \<and> 0 <s i))
           \<and> t = key @ ''='' @ (if v = VBool True then ''1'' else fmtv rt v))"
proof (intro conjI impI allI ballI, goal_cases)
  case 1
  then have a: "index diskConfMap ''type'' = VStr deviceType"
    "index diskConfMap ''storage_type'' = VStr storageType"
    "index diskConfMap ''cache'' = VStr cache" by blast+
  let ?size = "''size='' @ fmtv rt (index diskConfMap ''size'')"
  let ?file = "(if Contains storageType ''zfspool'' \<or> Contains storageType ''lvm''
                  then ''file='' @ fmtv rt (index diskConfMap ''storage'') @ '':vm-'' @ Itoa vmID
                         @ ''-disk-'' @ Itoa (diskID + 1)
                  else ''file='' @ fmtv rt (index diskConfMap ''storage'') @ '':'' @ Itoa vmID
                         @ ''/vm-'' @ Itoa vmID @ ''-disk-'' @ Itoa (diskID + 1)
                         @ ''.'' @ fmtv rt (index diskConfMap ''format''))"
  let ?ign = "[''id'', ''type'', ''storage'', ''storage_type'', ''size'', ''cache'']"
  let ?more = "(if cache \<noteq> ''none'' then [''cache='' @ cache] else [])
                 @ createDeviceParam rt [] diskConfMap ?ign"
  have acc: "createDeviceParam rt ([?size, ?file] @ (if cache \<noteq> ''none'' then [''cache='' @ cache] else []))
               diskConfMap ?ign = ?size # ?file # ?more"
    by (subst createDeviceParam_acc) simp
  from a have enc: "encodeDisk rt vmID ''update'' diskID diskConfMap params
      = Inr (AList.update (deviceType @ Itoa diskID) (VStr (Join (?size # ?file # ?more) '','')) params)"
    using acc by (auto simp: encodeDisk_def diskStorageParam_def assertString_def Let_def fmtv_def)
  have "Join (?size # ?file # ?more) '','' 
      = ?size @ '','' @ ?file @ (if ?more = [] then [] else '','' @ Join ?more '','')"
    by (rule Join_two)
  with enc show ?case unfolding Let_def by blast
next
  case 2
  then have a: "(\<forall>s. index diskConfMap ''type'' \<noteq> VStr s)
        \<or> (\<forall>s. index diskConfMap ''storage_type'' \<noteq> VStr s)
        \<or> (\<forall>s. index diskConfMap ''cache'' \<noteq> VStr s)" .
  have "\<not> (\<exists>p. encodeDisk rt vmID ''update'' diskID diskConfMap params = Inr p)"
  proof
    assume "\<exists>p. encodeDisk rt vmID ''update'' diskID diskConfMap params = Inr p"
    then obtain p where p: "encodeDisk rt vmID ''update'' diskID diskConfMap params = Inr p" ..
    then obtain deviceType where ty: "index diskConfMap ''type'' = VStr deviceType"
      by (auto simp: encodeDisk_def assertString_Inr split: sum.splits)
    from p ty obtain storageType where st: "index diskConfMap ''storage_type'' = VStr storageType"
      by (auto simp: encodeDisk_def diskStorageParam_def assertString_Inr split: sum.splits)
    from p ty st obtain cache where ca: "index diskConfMap ''cache'' = VStr cache"
      by (auto simp: encodeDisk_def diskStorageParam_def assertString_def Let_def
            split: sum.splits val.splits)
    from a ty st ca show False by auto
  qed
  then show ?case
    by (cases "encodeDisk rt vmID ''update'' diskID diskConfMap params")
       (auto dest: encodeDisk_Inl)
next
  case (3 key v)
  then have mem: "(key, v) \<in> set diskConfMap"
    and ign: "\<not> inArray [''id'', ''type'', ''storage'', ''storage_type'', ''size'', ''cache''] key"
    and emit: "v = VBool True \<or> (\<exists>s. v = VStr s \<and> s \<noteq> []) \<or> (\<exists>i. v = VInt i \<and> 0 <s i)"
    by auto
  from createDeviceParam_emits [OF mem ign confValue_emitted [OF emit], of rt "[]"]
  show ?case by (auto simp: fmtv_def)
next
  case (4 t)
  from createDeviceParam_tokens [OF this]
  obtain k w cv where kw: "(k, w) \<in> set diskConfMap"
    "\<not> inArray [''id'', ''type'', ''storage'', ''storage_type'', ''size'', ''cache''] k"
    "confValue w = Some cv" "t = k @ ''='' @ fmtv rt cv" by auto
  from confValue_Some [OF kw(3)] kw
  show ?case
    by (intro exI [of _ k] exI [of _ w]) (auto simp: fmtv_def)
qed

theorem update_disk_encoding_witness:
  "index scenarioUpdateDiskCached ''type'' = VStr ''virtio''
   \<and> index scenarioUpdateDiskCached ''storage_type'' = VStr ''dir''
   \<and> index scenarioUpdateDiskCached ''cache'' = VStr ''none''
   \<and> \<not> Contains ''dir'' ''zfspool'' \<and> \<not> Contains ''dir'' ''lvm''
   \<and> encodeDisk exampleRuntime 101 ''update'' 0 scenarioUpdateDiskCached []
     = Inr [(''virtio0'', VStr ''size=20G,file=local:101/vm-101-disk-1.qcow2,format=qcow2'')]
   \<and> index scenarioUpdateDiskWriteback ''cache'' = VStr ''writeback''
   \<and> encodeDisk exampleRuntime 101 ''update'' 0 scenarioUpdateDiskWriteback []
     = Inr [(''virtio0'',
             VStr ''size=20G,file=local:101/vm-101-disk-1.qcow2,cache=writeback,format=qcow2'')]
   \<and> Contains ''lvmthin'' ''lvm''
   \<and> encodeDisk exampleRuntime 101 ''update'' 2
         [(''type'', VStr ''scsi''), (''storage'', VStr ''tank''), (''size'', VStr ''8G''),
          (''storage_type'', VStr ''lvmthin''), (''cache'', VStr ''none''), (''ssd'', VBool True),
          (''backup'', VBool False)] []
     = Inr [(''scsi2'', VStr ''size=8G,file=tank:vm-101-disk-3,ssd=1'')]
   \<and> encodeDisk exampleRuntime 101 ''update'' 0 scenarioUpdateDisk [] = Inl (Panic TypeAssertion)"
proof -
  let ?ign = "[''id'', ''type'', ''storage'', ''storage_type'', ''size'', ''cache'']"
  let ?lvm = "[(''type'', VStr ''scsi''), (''storage'', VStr ''tank''), (''size'', VStr ''8G''),
          (''storage_type'', VStr ''lvmthin''), (''cache'', VStr ''none''), (''ssd'', VBool True),
          (''backup'', VBool False)]"
  have a: "index scenarioUpdateDiskCached ''type'' = VStr ''virtio''"
    "index scenarioUpdateDiskCached ''storage_type'' = VStr ''dir''"
    "index scenarioUpdateDiskCached ''cache'' = VStr ''none''"
    by (simp_all add: scenarioUpdateDiskCached_def scenarioUpdateDisk_def scenarioDisk_def index_def)
  have b: "index scenarioUpdateDiskWriteback ''type'' = VStr ''virtio''"
    "index scenarioUpdateDiskWriteback ''storage_type'' = VStr ''dir''"
    "index scenarioUpdateDiskWriteback ''cache'' = VStr ''writeback''"
    by (simp_all add: scenarioUpdateDiskWriteback_def scenarioUpdateDisk_def scenarioDisk_def index_def)
  have c: "index ?lvm ''type'' = VStr ''scsi''" "index ?lvm ''storage_type'' = VStr ''lvmthin''"
    "index ?lvm ''cache'' = VStr ''none''"
    by (simp_all add: index_def)
  have d: "\<forall>s. index scenarioUpdateDisk ''cache'' \<noteq> VStr s"
    by (simp add: scenarioUpdateDisk_def scenarioDisk_def index_def)
  have m: "\<not> Contains ''dir'' ''zfspool''" "\<not> Contains ''dir'' ''lvm''" "Contains ''lvmthin'' ''lvm''"
    by simp_all
  have ga: "createDeviceParam exampleRuntime [] scenarioUpdateDiskCached ?ign = [''format=qcow2'']"
    by (simp add: scenarioUpdateDiskCached_def scenarioUpdateDisk_def scenarioDisk_def
          confValue_def fmtv_def)
  have gb: "createDeviceParam exampleRuntime [] scenarioUpdateDiskWriteback ?ign = [''format=qcow2'']"
    by (simp add: scenarioUpdateDiskWriteback_def scenarioUpdateDisk_def scenarioDisk_def
          confValue_def fmtv_def)
  have gc: "createDeviceParam exampleRuntime [] ?lvm ?ign = [''ssd=1'']"
    by (simp add: confValue_def fmtv_def)
  have i: "Itoa 101 = ''101''" "Itoa 1 = ''1''" "Itoa 0 = ''0''" "Itoa 3 = ''3''"
    "Itoa 2 = ''2''"
    by (simp_all add: Itoa_def digitsOf.simps)
  note A = update_disk_encoding
      [where rt = exampleRuntime and vmID = 101 and diskID = 0
         and diskConfMap = scenarioUpdateDiskCached and params = "[]"
         and deviceType = "''virtio''" and storageType = "''dir''" and cache = "''none''",
       THEN conjunct1, rule_format, OF conjI [OF a(1) conjI [OF a(2) a(3)]],
       unfolded Let_def ga, THEN conjunct1]
  note B = update_disk_encoding
      [where rt = exampleRuntime and vmID = 101 and diskID = 0
         and diskConfMap = scenarioUpdateDiskWriteback and params = "[]"
         and deviceType = "''virtio''" and storageType = "''dir''" and cache = "''writeback''",
       THEN conjunct1, rule_format, OF conjI [OF b(1) conjI [OF b(2) b(3)]],
       unfolded Let_def gb, THEN conjunct1]
  note C = update_disk_encoding
      [where rt = exampleRuntime and vmID = 101 and diskID = 2
         and diskConfMap = ?lvm and params = "[]"
         and deviceType = "''scsi''" and storageType = "''lvmthin''" and cache = "''none''",
       THEN conjunct1, rule_format, OF conjI [OF c(1) conjI [OF c(2) c(3)]],
       unfolded Let_def gc, THEN conjunct1]
  note D = update_disk_encoding
      [where rt = exampleRuntime and vmID = 101 and diskID = 0
         and diskConfMap = scenarioUpdateDisk and params = "[]",
       THEN conjunct2, THEN conjunct1, rule_format, OF disjI2 [OF disjI2 [OF d]]]
  have A': "encodeDisk exampleRuntime 101 ''update'' 0 scenarioUpdateDiskCached []
     = Inr [(''virtio0'', VStr ''size=20G,file=local:101/vm-101-disk-1.qcow2,format=qcow2'')]"
    using A by (simp add: i m fmtv_def index_def scenarioUpdateDiskCached_def
          scenarioUpdateDisk_def scenarioDisk_def)
  have B': "encodeDisk exampleRuntime 101 ''update'' 0 scenarioUpdateDiskWriteback []
     = Inr [(''virtio0'',
             VStr ''size=20G,file=local:101/vm-101-disk-1.qcow2,cache=writeback,format=qcow2'')]"
    using B by (simp add: i m fmtv_def index_def scenarioUpdateDiskWriteback_def
          scenarioUpdateDisk_def scenarioDisk_def)
  have C': "encodeDisk exampleRuntime 101 ''update'' 2 ?lvm []
     = Inr [(''scsi2'', VStr ''size=8G,file=tank:vm-101-disk-3,ssd=1'')]"
    using C by (simp add: i m fmtv_def index_def)
  show ?thesis
    by (intro conjI a m A' b(3) B' C' D)
qed

text \<open>
  The claim as stated fails at its scenario: the descriptor has no \<^verbatim>\<open>cache\<close>, so the
  encoder panics; and with a cache the value also carries \<^verbatim>\<open>format=qcow2\<close>, since
  \<^verbatim>\<open>format\<close> is not among the ignored keys.
\<close>

theorem update_disk_encoding_counterexample:
  "encodeDisk exampleRuntime 101 ''update'' 0 scenarioUpdateDisk [] = Inl (Panic TypeAssertion)
   \<and> encodeDisk exampleRuntime 101 ''update'' 0 scenarioUpdateDiskCached []
       \<noteq> Inr [(''virtio0'', VStr ''size=20G,file=local:101/vm-101-disk-1.qcow2'')]"
  by (simp add: scenarioUpdateDiskCached_def scenarioUpdateDisk_def scenarioDisk_def encodeDisk_def
        diskStorageParam_def assertString_def index_def fmtv_def Itoa_def digitsOf.simps confValue_def)

text \<open>
  Claim C4. A network descriptor whose \<^verbatim>\<open>macaddr\<close> is the empty string (and whose
  \<^verbatim>\<open>bridge\<close> is a string) is encoded with a generated address: the value stored under
  \<^verbatim>\<open>net<idx>\<close> is \<^verbatim>\<open>macaddr=\<close> and that address, then the bridge and the generic tokens,
  and the address is written into the descriptor. The address is six upper-case
  hexadecimal pairs separated by colons, and read back it is exactly the first six bytes
  of the random stream seeded with \<^verbatim>\<open>vmID + nicID\<close>: equal sums give equal addresses,
  streams that differ in those bytes give different ones. Encoding the descriptor again
  as it was written back, in the same or in any other iteration order, leaves it as it
  is and emits the same address. Through \<^verbatim>\<open>CreateQemuNetworksParams\<close> the caller finds
  the address in the network table.
\<close>

theorem generated_mac_deterministic:
  "(index nicConfMap ''macaddr'' = VStr [] \<and> index nicConfMap ''bridge'' = VStr bridge \<longrightarrow>
      (let mac = generateMac rt vmID nicID;
           written = AList.update ''macaddr'' (VStr mac) nicConfMap;
           more = (if bridge \<noteq> ''nat'' then [''bridge='' @ bridge] else [])
                    @ createDeviceParam rt [] written [''id'', ''bridge'', ''macaddr'']
       in encodeNic rt vmID nicID nicConfMap params
            = Inr (written,
                   AList.update (''net'' @ Itoa nicID)
                     (VStr (Join ((''macaddr='' @ mac) # more) '','')) params)
          \<and> Join ((''macaddr='' @ mac) # more) '',''
              = ''macaddr='' @ mac @ (if more = [] then [] else '','' @ Join more '','')))
   \<and> (index nicConfMap ''macaddr'' = VStr []
       \<and> encodeNic rt vmID nicID nicConfMap params = Inr (nicConfMap', params')
      \<longrightarrow> encodeNic rt vmID nicID nicConfMap' params = Inr (nicConfMap', params'))
   \<and> (index again ''macaddr'' = VStr (generateMac rt vmID nicID)
       \<and> index again ''bridge'' = VStr bridge
      \<longrightarrow> encodeNic rt vmID nicID again params
            = Inr (again,
                   AList.update (''net'' @ Itoa nicID)
                     (VStr (Join ((''macaddr='' @ generateMac rt vmID nicID)
                        # (if bridge \<noteq> ''nat'' then [''bridge='' @ bridge] else [])
                          @ createDeviceParam rt [] again [''id'', ''bridge'', ''macaddr'']) '',''))
                     params))
   \<and> (vmID + nicID = vmID' + nicID' \<longrightarrow> generateMac rt vmID nicID = generateMac rt vmID' nicID')
   \<and> isUpperMac (generateMac rt vmID nicID)
   \<and> parseMac (generateMac rt vmID nicID) = map (randRead rt (vmID + nicID)) [0..<6]
   \<and> (map (randRead rt (vmID + nicID)) [0..<6] \<noteq> map (randRead rt (vmID' + nicID')) [0..<6]
      \<longrightarrow> generateMac rt vmID nicID \<noteq> generateMac rt vmID' nicID')
   \<and> (QemuNetworks c = Some devs \<and> (nicID, nicConfMap) \<in> set devs
       \<and> index nicConfMap ''macaddr'' = VStr []
       \<and> CreateQemuNetworksParams rt c vmID params = Inr (networks', params')
      \<longrightarrow> (\<exists>devs'. networks' = Some devs'
            \<and> (nicID, AList.update ''macaddr'' (VStr (generateMac rt vmID nicID)) nicConfMap)
                 \<in> set devs'))"
proof (intro conjI impI, goal_cases)
  case 1
  then have a: "index nicConfMap ''macaddr'' = VStr []" "index nicConfMap ''bridge'' = VStr bridge"
    by blast+
  show ?case
    unfolding Let_def
  proof (intro conjI)
    show "Join ((''macaddr='' @ generateMac rt vmID nicID)
              # (if bridge \<noteq> ''nat'' then [''bridge='' @ bridge] else [])
                @ createDeviceParam rt []
                    (AList.update ''macaddr'' (VStr (generateMac rt vmID nicID)) nicConfMap)
                    [''id'', ''bridge'', ''macaddr'']) '',''
        = ''macaddr='' @ generateMac rt vmID nicID
            @ (if (if bridge \<noteq> ''nat'' then [''bridge='' @ bridge] else [])
                    @ createDeviceParam rt []
                        (AList.update ''macaddr'' (VStr (generateMac rt vmID nicID)) nicConfMap)
                        [''id'', ''bridge'', ''macaddr''] = []
               then []
               else '','' @ Join ((if bridge \<noteq> ''nat'' then [''bridge='' @ bridge] else [])
                    @ createDeviceParam rt []
                        (AList.update ''macaddr'' (VStr (generateMac rt vmID nicID)) nicConfMap)
                        [''id'', ''bridge'', ''macaddr'']) '','')"
      by (subst Join_head) (simp only: append_assoc)
  qed (rule encodeNic_generates_exact [OF a])
next
  case 2
  then show ?case using encodeNic_second_pass by blast
next
  case 3
  then have a: "index again ''macaddr'' = VStr (generateMac rt vmID nicID)"
    "index again ''bridge'' = VStr bridge" by blast+
  show ?case
    by (rule encodeNic_keeps_address [OF a(1) generateMac_nonempty a(2)])
next
  case 4
  then show ?case by (simp add: generateMac_def)
next
  case 5
  show ?case by (rule generateMac_shape)
next
  case 6
  show ?case by (rule generateMac_bytes)
next
  case 7
  show ?case
  proof
    assume "generateMac rt vmID nicID = generateMac rt vmID' nicID'"
    then have "parseMac (generateMac rt vmID nicID) = parseMac (generateMac rt vmID' nicID')"
      by simp
    with 7 show False unfolding generateMac_bytes by simp
  qed
next
  case 8
  then have devs: "QemuNetworks c = Some devs" and mem: "(nicID, nicConfMap) \<in> set devs"
    and empty: "index nicConfMap ''macaddr'' = VStr []"
    and run: "CreateQemuNetworksParams rt c vmID params = Inr (networks', params')"
    by blast+
  from devs mem have dep: "deprecatedNetworks c = Inr (Some devs)"
    by (cases devs) (auto simp: deprecatedNetworks_nonempty)
  from run dep obtain devs' where out: "networks' = Some devs'"
    and enc: "encodeNics rt vmID devs params = Inr (devs', params')"
    by (auto simp: CreateQemuNetworksParams_def rangeDevices_def split: sum.splits)
  from encodeNics_member [OF enc mem] obtain m' p p' where
    one: "encodeNic rt vmID nicID nicConfMap p = Inr (m', p')" and in': "(nicID, m') \<in> set devs'"
    by blast
  from one empty have "m' = AList.update ''macaddr'' (VStr (generateMac rt vmID nicID)) nicConfMap"
    by (auto simp: encodeNic_def assertString_def Let_def split: sum.splits)
  with out in' show ?case by blast
qed

theorem generated_mac_deterministic_witness:
  "index scenarioNic ''macaddr'' = VStr [] \<and> index scenarioNic ''bridge'' = VStr ''vmbr0''
   \<and> encodeNic exampleRuntime 101 0 scenarioNic []
       = Inr ([(''model'', VStr ''virtio''), (''macaddr'', VStr ''65:8A:AF:D4:F9:1E''),
               (''bridge'', VStr ''vmbr0'')],
              [(''net0'', VStr ''macaddr=65:8A:AF:D4:F9:1E,bridge=vmbr0,model=virtio'')])
   \<and> encodeNic exampleRuntime 101 0
         [(''model'', VStr ''virtio''), (''macaddr'', VStr ''65:8A:AF:D4:F9:1E''),
          (''bridge'', VStr ''vmbr0'')] []
       = Inr ([(''model'', VStr ''virtio''), (''macaddr'', VStr ''65:8A:AF:D4:F9:1E''),
               (''bridge'', VStr ''vmbr0'')],
              [(''net0'', VStr ''macaddr=65:8A:AF:D4:F9:1E,bridge=vmbr0,model=virtio'')])
   \<and> encodeNic exampleRuntime 101 0
         [(''bridge'', VStr ''vmbr0''), (''macaddr'', VStr ''65:8A:AF:D4:F9:1E''),
          (''model'', VStr ''virtio'')] []
       = Inr ([(''bridge'', VStr ''vmbr0''), (''macaddr'', VStr ''65:8A:AF:D4:F9:1E''),
               (''model'', VStr ''virtio'')],
              [(''net0'', VStr ''macaddr=65:8A:AF:D4:F9:1E,bridge=vmbr0,model=virtio'')])
   \<and> generateMac exampleRuntime 101 0 = generateMac exampleRuntime 100 1
   \<and> generateMac exampleRuntime 101 0 = ''65:8A:AF:D4:F9:1E''
   \<and> isUpperMac ''65:8A:AF:D4:F9:1E''
   \<and> parseMac ''65:8A:AF:D4:F9:1E'' = map (randRead exampleRuntime (101 + 0)) [0..<6]
   \<and> map (randRead exampleRuntime (101 + 0)) [0..<6] = [0x65, 0x8A, 0xAF, 0xD4, 0xF9, 0x1E]
   \<and> map (randRead exampleRuntime (101 + 1)) [0..<6] = [0x66, 0x8B, 0xB0, 0xD5, 0xFA, 0x1F]
   \<and> generateMac exampleRuntime 101 0 \<noteq> generateMac exampleRuntime 101 1"
proof -
  let ?ign = "[''id'', ''bridge'', ''macaddr'']"
  let ?written = "[(''model'', VStr ''virtio''), (''macaddr'', VStr ''65:8A:AF:D4:F9:1E''),
               (''bridge'', VStr ''vmbr0'')]"
  let ?shuffled = "[(''bridge'', VStr ''vmbr0''), (''macaddr'', VStr ''65:8A:AF:D4:F9:1E''),
          (''model'', VStr ''virtio'')]"
  have mac: "generateMac exampleRuntime 101 0 = ''65:8A:AF:D4:F9:1E''"
    by (simp add: generateMac_def hardwareAddrString_def hexByte_def ToUpper_def upperChar_def
          exampleRuntime_def upt_conv_Cons)
  have b0: "map (randRead exampleRuntime (101 + 0)) [0..<6] = [0x65, 0x8A, 0xAF, 0xD4, 0xF9, 0x1E]"
    by (simp add: exampleRuntime_def upt_conv_Cons)
  have b1: "map (randRead exampleRuntime (101 + 1)) [0..<6] = [0x66, 0x8B, 0xB0, 0xD5, 0xFA, 0x1F]"
    by (simp add: exampleRuntime_def upt_conv_Cons)
  have differ: "map (randRead exampleRuntime (101 + 0)) [0..<6]
      \<noteq> map (randRead exampleRuntime (101 + 1)) [0..<6]"
    unfolding b0 b1 by simp
  have empty: "index scenarioNic ''macaddr'' = VStr []"
    and bridge: "index scenarioNic ''bridge'' = VStr ''vmbr0''"
    by (simp_all add: scenarioNic_def index_def)
  have upd: "AList.update ''macaddr'' (VStr ''65:8A:AF:D4:F9:1E'') scenarioNic = ?written"
    by (simp add: scenarioNic_def)
  have gw: "createDeviceParam exampleRuntime [] ?written ?ign = [''model=virtio'']"
    by (simp add: confValue_def fmtv_def)
  have gs: "createDeviceParam exampleRuntime [] ?shuffled ?ign = [''model=virtio'']"
    by (simp add: confValue_def fmtv_def)
  have i: "Itoa 0 = ''0''" by (simp add: Itoa_def digitsOf.simps)
  have sa: "index ?shuffled ''macaddr'' = VStr (generateMac exampleRuntime 101 0)"
    and sb: "index ?shuffled ''bridge'' = VStr ''vmbr0''"
    by (simp_all add: mac index_def)
  have seed: "(101::goint) + 0 = 100 + 1" by simp
  note T = generated_mac_deterministic
      [where rt = exampleRuntime and vmID = 101 and nicID = 0 and nicConfMap = scenarioNic
         and params = "[]" and vmID' = 100 and nicID' = 1 and bridge = "''vmbr0''"
         and nicConfMap' = ?written and again = ?shuffled
         and params' = "[(''net0'', VStr ''macaddr=65:8A:AF:D4:F9:1E,bridge=vmbr0,model=virtio'')]"]
  note T' = generated_mac_deterministic
      [where rt = exampleRuntime and vmID = 101 and nicID = 0 and vmID' = 101 and nicID' = 1]
  note first0 = T [THEN conjunct1, rule_format, OF conjI [OF empty bridge],
      unfolded Let_def mac upd gw, THEN conjunct1]
  have first: "encodeNic exampleRuntime 101 0 scenarioNic []
       = Inr (?written, [(''net0'', VStr ''macaddr=65:8A:AF:D4:F9:1E,bridge=vmbr0,model=virtio'')])"
    using first0 by (simp add: i)
  note second = T [THEN conjunct2, THEN conjunct1, rule_format, OF conjI [OF empty first]]
  note third0 = T [THEN conjunct2, THEN conjunct2, THEN conjunct1, rule_format,
      OF conjI [OF sa sb], unfolded mac gs]
  have third: "encodeNic exampleRuntime 101 0 ?shuffled []
       = Inr (?shuffled, [(''net0'', VStr ''macaddr=65:8A:AF:D4:F9:1E,bridge=vmbr0,model=virtio'')])"
    using third0 by (simp add: i)
  note same = T [THEN conjunct2, THEN conjunct2, THEN conjunct2, THEN conjunct1, rule_format, OF seed]
  note shape = T [THEN conjunct2, THEN conjunct2, THEN conjunct2, THEN conjunct2, THEN conjunct1,
      unfolded mac]
  note bytes = T [THEN conjunct2, THEN conjunct2, THEN conjunct2, THEN conjunct2, THEN conjunct2,
      THEN conjunct1, unfolded mac]
  note other = T' [THEN conjunct2, THEN conjunct2, THEN conjunct2, THEN conjunct2, THEN conjunct2,
      THEN conjunct2, THEN conjunct1, rule_format, OF differ]
  show ?thesis
    by (intro conjI empty bridge first second third same mac shape bytes b0 b1 other)
qed

text \<open>
  Claim C5, as the code has it. The value of a \<^verbatim>\<open>key=value\<close> segment is coerced in this
  order: a base-10 integer of 64 bits if \<^verbatim>\<open>strconv.ParseInt\<close> accepts it (every rendering
  of an \<^verbatim>\<open>int\<close> is, and so is \<^verbatim>\<open>1\<close>, which becomes the integer 1); otherwise a boolean if
  it is one of \<^verbatim>\<open>t T TRUE true True\<close> or \<^verbatim>\<open>f F FALSE false False\<close>, the forms
  \<^verbatim>\<open>strconv.ParseBool\<close> accepts besides \<^verbatim>\<open>1\<close> and \<^verbatim>\<open>0\<close>; otherwise the string itself.
  Decoding a segment \<^verbatim>\<open>key=value\<close> never fails: the key receives the coerced value.
\<close>

theorem coerce_priority:
  "coerce v =
     (case ParseInt v of
        Some iValue \<Rightarrow> VInt iValue
      | None \<Rightarrow>
          if v \<in> set [''t'', ''T'', ''TRUE'', ''true'', ''True''] then VBool True
          else if v \<in> set [''f'', ''F'', ''FALSE'', ''false'', ''False''] then VBool False
          else VStr v)
   \<and> coerce (Itoa i) = VInt i
   \<and> coerce ''1'' = VInt 1
   \<and> (CHR ''='' \<notin> set key \<and> CHR ''='' \<notin> set v \<longrightarrow>
        readDeviceConfig confMap [key @ ''='' @ v] = Inr (AList.update key (coerce v) confMap))"
proof (intro conjI impI, goal_cases)
  case 1
  show ?case
  proof (cases "ParseInt v")
    case None
    then have "v \<noteq> ''1''" "v \<noteq> ''0''" using ParseInt_one ParseInt_zero by auto
    with None show ?thesis by (simp add: coerce_def ParseBool_def)
  next
    case (Some iValue)
    then show ?thesis by (simp add: coerce_def)
  qed
next
  case 2
  show ?case by (simp add: coerce_def ParseInt_Itoa)
next
  case 3
  show ?case by (simp add: coerce_def ParseInt_one)
next
  case 4
  then have "Split (key @ CHR ''='' # v) (CHR ''='') = [key, v]"
    by (simp add: Split_key_value Split_no_sep)
  then show ?case by simp
qed

theorem coerce_priority_witness:
  "CHR ''='' \<notin> set ''size'' \<and> CHR ''='' \<notin> set ''4G''
   \<and> readDeviceConfig [] [''size=4G'', ''backup=0'', ''ssd=t'', ''discard=true''] 
       = Inr [(''size'', VStr ''4G''), (''backup'', VInt 0), (''ssd'', VBool True),
              (''discard'', VBool True)]
   \<and> readDeviceConfig [] [''size'' @ ''='' @ ''4G''] = Inr [(''size'', coerce ''4G'')]
   \<and> coerce (Itoa (- 42)) = VInt (- 42)"
proof -
  note T = coerce_priority [where key = "''size''" and v = "''4G''" and confMap = "[]" and i = "- 42"]
  have a: "CHR ''='' \<notin> set ''size''" and b: "CHR ''='' \<notin> set ''4G''" by simp_all
  note one = T [THEN conjunct2, THEN conjunct2, THEN conjunct2, rule_format, OF conjI [OF a b]]
  note two = T [THEN conjunct2, THEN conjunct1]
  have three: "readDeviceConfig [] [''size=4G'', ''backup=0'', ''ssd=t'', ''discard=true'']
       = Inr [(''size'', VStr ''4G''), (''backup'', VInt 0), (''ssd'', VBool True),
              (''discard'', VBool True)]"
    by (simp add: coerce_def ParseInt_def ParseBool_def isDigit_def digitVal_def)
  from one have one': "readDeviceConfig [] [''size'' @ ''='' @ ''4G''] = Inr [(''size'', coerce ''4G'')]"
    by simp
  show ?thesis by (intro conjI a b three one' two)
qed

text \<open>
  The claim as stated fails on the boolean forms: \<^verbatim>\<open>t\<close> and \<^verbatim>\<open>F\<close> are not the literals
  \<^verbatim>\<open>true\<close> and \<^verbatim>\<open>false\<close>, and the decoder makes booleans of them.
\<close>

theorem coerce_priority_counterexample:
  "coerce ''t'' = VBool True \<and> coerceSpec ''t'' = VStr ''t''
   \<and> coerce ''F'' = VBool False \<and> coerceSpec ''F'' = VStr ''F''"
  by (simp add: coerce_def coerceSpec_def ParseInt_def ParseBool_def isDigit_def)

text \<open>
  Claim C6. The deprecated fields are synthesized only into an empty device table. A disk
  (network) table with an entry is left as it is, so an explicit entry at index 0 is kept,
  and the encoder's result does not depend on the deprecated fields at all; an empty,
  initialized table with a non-empty \<^verbatim>\<open>Storage\<close> (\<^verbatim>\<open>QemuNicModel\<close>) becomes the table with
  exactly one descriptor, at index 0, before the loop over the devices runs.
\<close>

theorem deprecated_synthesis_exclusive:
  "(QemuDisks c = Some (d # ds) \<longrightarrow>
      deprecatedDisks c = Inr (Some (d # ds))
      \<and> CreateQemuDisksParams rt (c\<lparr>Storage := s, DiskSize := z\<rparr>) vmID action params
          = CreateQemuDisksParams rt c vmID action params)
   \<and> (QemuDisks c = Some [] \<and> Storage c \<noteq> [] \<longrightarrow>
      deprecatedDisks c
        = Inr (Some [(0, [(''storage'', VStr (Storage c)), (''size'', VFloat (DiskSize c))])]))
   \<and> (QemuNetworks c = Some (n # ns) \<longrightarrow>
      deprecatedNetworks c = Inr (Some (n # ns))
      \<and> CreateQemuNetworksParams rt (c\<lparr>QemuNicModel := m, QemuBrige := b, QemuVlanTag := t\<rparr>) vmID params
          = CreateQemuNetworksParams rt c vmID params)
   \<and> (QemuNetworks c = Some [] \<and> QemuNicModel c \<noteq> [] \<longrightarrow>
      (\<exists>desc. deprecatedNetworks c = Inr (Some [(0, desc)])
         \<and> index desc ''type'' = VStr (QemuNicModel c)
         \<and> index desc ''bridge'' = VStr (QemuBrige c)
         \<and> index desc ''tag'' = (if 0 <s QemuVlanTag c then VStr (Itoa (QemuVlanTag c)) else VNil)))"
proof (intro conjI impI)
  assume "QemuDisks c = Some (d # ds)"
  then show "deprecatedDisks c = Inr (Some (d # ds))" by (rule deprecatedDisks_nonempty)
next
  assume a: "QemuDisks c = Some (d # ds)"
  then have "deprecatedDisks (c\<lparr>Storage := s, DiskSize := z\<rparr>) = deprecatedDisks c"
    by (simp add: deprecatedDisks_def lenDevices_def)
  then show "CreateQemuDisksParams rt (c\<lparr>Storage := s, DiskSize := z\<rparr>) vmID action params
          = CreateQemuDisksParams rt c vmID action params"
    by (simp add: CreateQemuDisksParams_def)
next
  assume "QemuDisks c = Some [] \<and> Storage c \<noteq> []"
  then show "deprecatedDisks c
        = Inr (Some [(0, [(''storage'', VStr (Storage c)), (''size'', VFloat (DiskSize c))])])"
    by (simp add: deprecatedDisks_def lenDevices_def assignDevice_def)
next
  assume "QemuNetworks c = Some (n # ns)"
  then show "deprecatedNetworks c = Inr (Some (n # ns))" by (rule deprecatedNetworks_nonempty)
next
  assume a: "QemuNetworks c = Some (n # ns)"
  then have "deprecatedNetworks (c\<lparr>QemuNicModel := m, QemuBrige := b, QemuVlanTag := t\<rparr>)
      = deprecatedNetworks c"
    by (simp add: deprecatedNetworks_def lenDevices_def)
  then show "CreateQemuNetworksParams rt (c\<lparr>QemuNicModel := m, QemuBrige := b, QemuVlanTag := t\<rparr>) vmID params
          = CreateQemuNetworksParams rt c vmID params"
    by (simp add: CreateQemuNetworksParams_def)
next
  assume "QemuNetworks c = Some [] \<and> QemuNicModel c \<noteq> []"
  then show "\<exists>desc. deprecatedNetworks c = Inr (Some [(0, desc)])
         \<and> index desc ''type'' = VStr (QemuNicModel c)
         \<and> index desc ''bridge'' = VStr (QemuBrige c)
         \<and> index desc ''tag'' = (if 0 <s QemuVlanTag c then VStr (Itoa (QemuVlanTag c)) else VNil)"
    by (simp add: deprecatedNetworks_def lenDevices_def assignDevice_def index_def Let_def)
qed

theorem deprecated_synthesis_exclusive_witness:
  "QemuDisks scenarioConfig = Some ((0, scenarioDiskCached) # [])
   \<and> Storage scenarioConfig = ''local''
   \<and> CreateQemuDisksParams exampleRuntime (scenarioConfig\<lparr>Storage := ''other'', DiskSize := 7\<rparr>) 101 ''create'' []
       = Inr (Some [(0, scenarioDiskCached)], [(''virtio0'', VStr ''local:20'')])
   \<and> CreateQemuDisksParams exampleRuntime scenarioConfig 101 ''create'' []
       = Inr (Some [(0, scenarioDiskCached)], [(''virtio0'', VStr ''local:20'')])
   \<and> deprecatedDisks (scenarioConfig\<lparr>QemuDisks := Some []\<rparr>)
       = Inr (Some [(0, [(''storage'', VStr ''local''), (''size'', VFloat 20)])])
   \<and> QemuNetworks scenarioConfig = Some ((0, scenarioNic) # [])
   \<and> deprecatedNetworks scenarioConfig = Inr (Some [(0, scenarioNic)])
   \<and> deprecatedNetworks (scenarioConfig\<lparr>QemuNetworks := Some []\<rparr>)
       = Inr (Some [(0, [(''type'', VStr ''virtio''), (''bridge'', VStr ''vmbr0'')])])"
  using deprecated_synthesis_exclusive
      [where c = scenarioConfig and d = "(0, scenarioDiskCached)" and ds = "[]"
         and rt = exampleRuntime and s = "''other''" and z = 7 and vmID = 101
         and action = "''create''" and params = "[]" and n = "(0, scenarioNic)" and ns = "[]"]
    deprecated_synthesis_exclusive
      [where c = "scenarioConfig\<lparr>QemuDisks := Some [], QemuNetworks := Some []\<rparr>"]
  by (simp add: scenarioConfig_def scenarioDiskCached_def scenarioDisk_def scenarioNic_def
        CreateQemuDisksParams_def deprecatedDisks_def deprecatedNetworks_def lenDevices_def
        rangeDevices_def assignDevice_def encodeDisk_def diskStorageParam_def assertString_def
        index_def fmtv_def Itoa_def digitsOf.simps Trim_def confValue_def word_sless_alt)

text \<open>
  Claim C7, as the code has it. A segment of the attribute list without \<^verbatim>\<open>=\<close> is not
  skipped: \<^verbatim>\<open>readDeviceConfig\<close> ends in an index-out-of-range panic exactly when some
  segment has no \<^verbatim>\<open>=\<close>, whatever the other segments are; when every segment has one,
  it returns the descriptor.
\<close>

theorem readDeviceConfig_malformed:
  "((\<exists>confs \<in> set confList. CHR ''='' \<notin> set confs)
      \<longrightarrow> readDeviceConfig confMap confList = Inl (Panic IndexOutOfRange))
   \<and> ((\<forall>confs \<in> set confList. CHR ''='' \<in> set confs)
      \<longrightarrow> (\<exists>m. readDeviceConfig confMap confList = Inr m))"
proof (intro conjI impI)
  assume "\<exists>confs \<in> set confList. CHR ''='' \<notin> set confs"
  then show "readDeviceConfig confMap confList = Inl (Panic IndexOutOfRange)"
    using readDeviceConfig_panics_iff [of confList confMap] by blast
next
  assume "\<forall>confs \<in> set confList. CHR ''='' \<in> set confs"
  then have "readDeviceConfig confMap confList \<noteq> Inl (Panic IndexOutOfRange)"
    using readDeviceConfig_panics_iff [of confList confMap] by blast
  with readDeviceConfig_result [of confMap confList]
  show "\<exists>m. readDeviceConfig confMap confList = Inr m" by blast
qed

theorem readDeviceConfig_malformed_witness:
  "(\<exists>confs \<in> set [''size=4G'', ''backup'']. CHR ''='' \<notin> set confs)
   \<and> readDeviceConfig [(''type'', VStr ''virtio'')] [''size=4G'', ''backup'']
       = Inl (Panic IndexOutOfRange)
   \<and> CHR ''='' \<in> set ''size=4G'' \<and> CHR ''='' \<in> set ''backup=0''
   \<and> (\<exists>m. readDeviceConfig [(''type'', VStr ''virtio'')] [''size=4G'', ''backup=0''] = Inr m)"
  using readDeviceConfig_malformed [of "[''size=4G'', ''backup'']" "[(''type'', VStr ''virtio'')]"]
    readDeviceConfig_malformed [of "[''size=4G'', ''backup=0'']" "[(''type'', VStr ''virtio'')]"]
  by simp

text \<open>
  The claim as stated fails: with the segment \<^verbatim>\<open>backup\<close> before \<^verbatim>\<open>size=4G\<close>, decoding
  panics and the well-formed segment after it is never decoded.
\<close>

theorem readDeviceConfig_malformed_counterexample:
  "readDeviceConfig [(''type'', VStr ''virtio'')] [''backup'', ''size=4G'']
     = Inl (Panic IndexOutOfRange)
   \<and> decodeDisk [(''virtio0'', VStr ''local:vm-101-disk-1,backup,size=4G'')] ''virtio0''
     = Inl (Panic IndexOutOfRange)"
  by (simp add: decodeDisk_def andThen_def assertString_def index_def digitsRe_def
        nonDigitsRe_def isDigit_def)

text \<open>
  Claim C8, as the code has it. Under the action \<^verbatim>\<open>create\<close>, a disk descriptor whose
  \<^verbatim>\<open>type\<close>, \<^verbatim>\<open>size\<close> and \<^verbatim>\<open>cache\<close> are strings, with cache \<^verbatim>\<open>none\<close> and no attribute
  beyond the structural keys, is stored under the key \<^verbatim>\<open>type\<close> followed by the index,
  with the value \<^verbatim>\<open>storage:size\<close>, the size with its \<^verbatim>\<open>G\<close> stripped: the descriptor
  \<^verbatim>\<open>{type: virtio, storage: local, size: 20G, cache: none}\<close> at index 0 gives
  \<^verbatim>\<open>virtio0 = local:20\<close>. A descriptor without a string \<^verbatim>\<open>cache\<close> panics instead.
\<close>

theorem create_disk_encoding:
  "(index diskConfMap ''type'' = VStr deviceType
      \<and> index diskConfMap ''size'' = VStr diskSizeGB
      \<and> index diskConfMap ''cache'' = VStr ''none''
      \<and> (\<forall>key \<in> fst ` set diskConfMap.
            key \<in> set [''id'', ''type'', ''storage'', ''storage_type'', ''size'', ''cache''])
    \<longrightarrow> encodeDisk rt vmID ''create'' diskID diskConfMap params
          = Inr (AList.update (deviceType @ Itoa diskID)
                   (VStr (fmtv rt (index diskConfMap ''storage'') @ '':'' @ Trim diskSizeGB ''G''))
                   params))
   \<and> ((\<forall>s. index diskConfMap ''cache'' \<noteq> VStr s)
    \<longrightarrow> encodeDisk rt vmID ''create'' diskID diskConfMap params = Inl (Panic TypeAssertion))
   \<and> (CHR ''G'' \<notin> set n \<and> n \<noteq> [] \<longrightarrow> Trim (n @ ''G'') ''G'' = n)"
proof (intro conjI impI)
  assume a: "index diskConfMap ''type'' = VStr deviceType
      \<and> index diskConfMap ''size'' = VStr diskSizeGB
      \<and> index diskConfMap ''cache'' = VStr ''none''
      \<and> (\<forall>key \<in> fst ` set diskConfMap.
            key \<in> set [''id'', ''type'', ''storage'', ''storage_type'', ''size'', ''cache''])"
  then have "\<forall>key \<in> fst ` set diskConfMap.
      inArray [''id'', ''type'', ''storage'', ''storage_type'', ''size'', ''cache''] key"
    by auto
  from createDeviceParam_all_ignored [OF this]
  have rest: "\<And>p. createDeviceParam rt p diskConfMap
      [''id'', ''type'', ''storage'', ''storage_type'', ''size'', ''cache''] = p" .
  from a show "encodeDisk rt vmID ''create'' diskID diskConfMap params
          = Inr (AList.update (deviceType @ Itoa diskID)
                   (VStr (fmtv rt (index diskConfMap ''storage'') @ '':'' @ Trim diskSizeGB ''G''))
                   params)"
    by (simp add: encodeDisk_def diskStorageParam_def assertString_def rest)
next
  assume a: "\<forall>s. index diskConfMap ''cache'' \<noteq> VStr s"
  then have "assertString (index diskConfMap ''cache'') = Inl (Panic TypeAssertion)"
    by (cases "index diskConfMap ''cache''") (auto simp: assertString_def)
  then show "encodeDisk rt vmID ''create'' diskID diskConfMap params = Inl (Panic TypeAssertion)"
    by (auto simp: encodeDisk_def diskStorageParam_def Let_def split: sum.splits
          dest: assertString_Inl)
next
  assume "CHR ''G'' \<notin> set n \<and> n \<noteq> []"
  then show "Trim (n @ ''G'') ''G'' = n" by (simp add: Trim_suffix)
qed

theorem create_disk_encoding_witness:
  "index scenarioDiskCached ''type'' = VStr ''virtio''
   \<and> index scenarioDiskCached ''size'' = VStr ''20G''
   \<and> index scenarioDiskCached ''cache'' = VStr ''none''
   \<and> fst ` set scenarioDiskCached \<subseteq> set [''id'', ''type'', ''storage'', ''storage_type'', ''size'', ''cache'']
   \<and> encodeDisk exampleRuntime 101 ''create'' 0 scenarioDiskCached [] = Inr [(''virtio0'', VStr ''local:20'')]
   \<and> encodeDisk exampleRuntime 101 ''create'' 0 scenarioDisk [] = Inl (Panic TypeAssertion)"
  using create_disk_encoding
      [where diskConfMap = scenarioDiskCached and deviceType = "''virtio''" and diskSizeGB = "''20G''"
         and rt = exampleRuntime and vmID = 101 and diskID = 0 and params = "[]" and n = "''20''"]
    create_disk_encoding
      [where diskConfMap = scenarioDisk and rt = exampleRuntime and vmID = 101 and diskID = 0
         and params = "[]"]
  by (simp add: scenarioDiskCached_def scenarioDisk_def index_def fmtv_def Itoa_def digitsOf.simps
        Trim_def)

text \<open>
  The claim as stated fails: its descriptor has no \<^verbatim>\<open>cache\<close> attribute, and the encoder
  asserts \<^verbatim>\<open>diskConfMap["cache"].(string)\<close>.
\<close>

theorem create_disk_encoding_counterexample:
  "CreateQemuDisksParams exampleRuntime (scenarioConfig\<lparr>QemuDisks := Some [(0, scenarioDisk)]\<rparr>)
      101 ''create'' [] = Inl (Panic TypeAssertion)"
  by (simp add: CreateQemuDisksParams_def deprecatedDisks_def lenDevices_def rangeDevices_def
        scenarioConfig_def scenarioDisk_def encodeDisk_def diskStorageParam_def assertString_def
        index_def fmtv_def Trim_def)

text \<open>
  Claim C9. \<^verbatim>\<open>CloneVm\<close> issues the clone request (new id, target node, name, storage,
  full-clone flag) first. If the client fails it, that error is returned as it is and
  nothing else is requested: no set-config call. If it succeeds, \<^verbatim>\<open>UpdateConfig\<close> runs on
  the new VM: the disk and network tables are encoded under the action \<^verbatim>\<open>update\<close> on top
  of description, onboot, sockets, cores and memory (which the encoders leave in place),
  one set-config request carries the result, and its outcome is the outcome of the
  clone. A panic of an encoder ends the run after the clone request.
\<close>

theorem CloneVm_then_UpdateConfig:
  "let vmr' = vmr\<lparr>vmType := ''qemu''\<rparr>;
       cloneParams = [(''newid'', VInt (vmId vmr)), (''target'', VStr (node vmr)),
                      (''name'', VStr (Name config)), (''storage'', VStr (Storage config)),
                      (''full'', VStr (case FullClone config of None \<Rightarrow> ''1'' | Some f \<Rightarrow> Itoa f))];
       h' = h @ [Request (ReqCloneQemuVm sourceVmr cloneParams)];
       configParams = [(''description'', VStr (Description config)),
                       (''onboot'', VBool (Onboot config)),
                       (''sockets'', VInt (QemuSockets config)),
                       (''cores'', VInt (QemuCores config)),
                       (''memory'', VInt (Memory config))]
   in (\<forall>err. CloneQemuVm client h sourceVmr cloneParams = Some err \<longrightarrow>
         CloneVm rt client config sourceVmr vmr h = (Inl (Err err), h')
         \<and> setConfigs h' = setConfigs h)
    \<and> (\<forall>disks p1 networks p2.
         CloneQemuVm client h sourceVmr cloneParams = None
         \<and> CreateQemuDisksParams rt config (vmId vmr) ''update'' configParams = Inr (disks, p1)
         \<and> CreateQemuNetworksParams rt (config\<lparr>QemuDisks := disks\<rparr>) (vmId vmr) p1
             = Inr (networks, p2)
         \<longrightarrow> CloneVm rt client config sourceVmr vmr h
               = (case SetVmConfig client h' vmr' p2 of
                    Some err \<Rightarrow> Inl (Err err)
                  | None \<Rightarrow> Inr (config\<lparr>QemuDisks := disks, QemuNetworks := networks\<rparr>, vmr'),
                  h' @ [Request (ReqSetVmConfig vmr' p2)])
             \<and> index p2 ''description'' = VStr (Description config)
             \<and> index p2 ''sockets'' = VInt (QemuSockets config)
             \<and> index p2 ''cores'' = VInt (QemuCores config)
             \<and> index p2 ''memory'' = VInt (Memory config))
    \<and> (\<forall>e. CloneQemuVm client h sourceVmr cloneParams = None
         \<and> (CreateQemuDisksParams rt config (vmId vmr) ''update'' configParams = Inl e
              \<or> (\<exists>disks p1.
                    CreateQemuDisksParams rt config (vmId vmr) ''update'' configParams = Inr (disks, p1)
                    \<and> CreateQemuNetworksParams rt (config\<lparr>QemuDisks := disks\<rparr>) (vmId vmr) p1 = Inl e))
         \<longrightarrow> CloneVm rt client config sourceVmr vmr h = (Inl e, h'))"
proof -
  let ?vmr = "vmr\<lparr>vmType := ''qemu''\<rparr>"
  let ?cp = "[(''newid'', VInt (vmId vmr)), (''target'', VStr (node vmr)),
              (''name'', VStr (Name config)), (''storage'', VStr (Storage config)),
              (''full'', VStr (case FullClone config of None \<Rightarrow> ''1'' | Some f \<Rightarrow> Itoa f))]"
  let ?h = "h @ [Request (ReqCloneQemuVm sourceVmr ?cp)]"
  let ?base = "[(''description'', VStr (Description config)),
                (''onboot'', VBool (Onboot config)),
                (''sockets'', VInt (QemuSockets config)),
                (''cores'', VInt (QemuCores config)),
                (''memory'', VInt (Memory config))]"
  have setConfigs_snoc: "setConfigs (h @ [Request (ReqCloneQemuVm sourceVmr ?cp)]) = setConfigs h"
    by (induction h rule: setConfigs.induct) auto
  have failed: "CloneVm rt client config sourceVmr vmr h = (Inl (Err err), ?h)"
    if "CloneQemuVm client h sourceVmr ?cp = Some err" for err
    using that by (simp add: CloneVm_def SetVmType_def)
  have cloned: "CloneVm rt client config sourceVmr vmr h
      = (case UpdateConfig rt client config ?vmr ?h of
           (Inl e, h'') \<Rightarrow> (Inl e, h'')
         | (Inr config', h'') \<Rightarrow> (Inr (config', ?vmr), h''))"
    if "CloneQemuVm client h sourceVmr ?cp = None"
    using that by (simp add: CloneVm_def SetVmType_def Let_def)
  have ok: "CloneVm rt client config sourceVmr vmr h
               = (case SetVmConfig client ?h ?vmr p2 of
                    Some err \<Rightarrow> Inl (Err err)
                  | None \<Rightarrow> Inr (config\<lparr>QemuDisks := disks, QemuNetworks := networks\<rparr>, ?vmr),
                  ?h @ [Request (ReqSetVmConfig ?vmr p2)])
             \<and> index p2 ''description'' = VStr (Description config)
             \<and> index p2 ''sockets'' = VInt (QemuSockets config)
             \<and> index p2 ''cores'' = VInt (QemuCores config)
             \<and> index p2 ''memory'' = VInt (Memory config)"
    if c: "CloneQemuVm client h sourceVmr ?cp = None"
      and d: "CreateQemuDisksParams rt config (vmId vmr) ''update'' ?base = Inr (disks, p1)"
      and n: "CreateQemuNetworksParams rt (config\<lparr>QemuDisks := disks\<rparr>) (vmId vmr) p1 = Inr (networks, p2)"
    for disks p1 networks p2
  proof -
    from d have d': "CreateQemuDisksParams rt config (vmId ?vmr) ''update'' ?base = Inr (disks, p1)"
      by simp
    from n have n': "CreateQemuNetworksParams rt (config\<lparr>QemuDisks := disks\<rparr>) (vmId ?vmr) p1
        = Inr (networks, p2)" by simp
    from UpdateConfig_encoded(1) [OF d' n', where client = client and h = ?h]
      UpdateConfig_encoded(2-5) [OF d' n'] cloned [OF c]
    show ?thesis by (simp split: option.splits)
  qed
  have panics: "CloneVm rt client config sourceVmr vmr h = (Inl e, ?h)"
    if c: "CloneQemuVm client h sourceVmr ?cp = None"
      and p: "CreateQemuDisksParams rt config (vmId vmr) ''update'' ?base = Inl e
              \<or> (\<exists>disks p1.
                    CreateQemuDisksParams rt config (vmId vmr) ''update'' ?base = Inr (disks, p1)
                    \<and> CreateQemuNetworksParams rt (config\<lparr>QemuDisks := disks\<rparr>) (vmId vmr) p1 = Inl e)"
    for e
    using p cloned [OF c] by (auto simp: UpdateConfig_def)
  show ?thesis
    unfolding Let_def using failed ok panics setConfigs_snoc by blast
qed

theorem CloneVm_then_UpdateConfig_witness:
  "CloneVm exampleRuntime refusingClient scenarioCloneConfig sourceVm scenarioVm []
     = (Inl (Err ''clone failed''),
        [Request (ReqCloneQemuVm sourceVm
           [(''newid'', VInt 101), (''target'', VStr ''pve''), (''name'', VStr ''vm1''),
            (''storage'', VStr ''local''), (''full'', VStr ''1'')])])
   \<and> CloneVm exampleRuntime lockedClient scenarioCloneConfig sourceVm scenarioVm []
     = (Inr (scenarioCloneConfig
               \<lparr>QemuNetworks := Some [(0, [(''model'', VStr ''virtio''),
                                            (''macaddr'', VStr ''65:8A:AF:D4:F9:1E''),
                                            (''bridge'', VStr ''vmbr0'')])]\<rparr>,
             scenarioVm\<lparr>vmType := ''qemu''\<rparr>),
        [Request (ReqCloneQemuVm sourceVm
           [(''newid'', VInt 101), (''target'', VStr ''pve''), (''name'', VStr ''vm1''),
            (''storage'', VStr ''local''), (''full'', VStr ''1'')]),
         Request (ReqSetVmConfig (scenarioVm\<lparr>vmType := ''qemu''\<rparr>)
           [(''description'', VStr []), (''onboot'', VBool False), (''sockets'', VInt 1),
            (''cores'', VInt 2), (''memory'', VInt 2048),
            (''virtio0'', VStr ''size=20G,file=local:101/vm-101-disk-1.qcow2,format=qcow2''),
            (''net0'', VStr ''macaddr=65:8A:AF:D4:F9:1E,bridge=vmbr0,model=virtio'')])])"
proof -
  have disks: "CreateQemuDisksParams exampleRuntime scenarioCloneConfig 101 ''update''
      [(''description'', VStr []), (''onboot'', VBool False), (''sockets'', VInt 1),
       (''cores'', VInt 2), (''memory'', VInt 2048)]
    = Inr (Some [(0, scenarioUpdateDiskCached)],
       [(''description'', VStr []), (''onboot'', VBool False), (''sockets'', VInt 1),
        (''cores'', VInt 2), (''memory'', VInt 2048),
        (''virtio0'', VStr ''size=20G,file=local:101/vm-101-disk-1.qcow2,format=qcow2'')])"
    by (simp add: CreateQemuDisksParams_def deprecatedDisks_def lenDevices_def rangeDevices_def
          scenarioCloneConfig_def scenarioConfig_def scenarioUpdateDiskCached_def
          scenarioUpdateDisk_def scenarioDisk_def encodeDisk_def diskStorageParam_def
          assertString_def index_def fmtv_def Itoa_def digitsOf.simps confValue_def)
  have nets: "CreateQemuNetworksParams exampleRuntime
      (scenarioCloneConfig\<lparr>QemuDisks := Some [(0, scenarioUpdateDiskCached)]\<rparr>) 101
      [(''description'', VStr []), (''onboot'', VBool False), (''sockets'', VInt 1),
        (''cores'', VInt 2), (''memory'', VInt 2048),
        (''virtio0'', VStr ''size=20G,file=local:101/vm-101-disk-1.qcow2,format=qcow2'')]
    = Inr (Some [(0, [(''model'', VStr ''virtio''), (''macaddr'', VStr ''65:8A:AF:D4:F9:1E''),
                     (''bridge'', VStr ''vmbr0'')])],
       [(''description'', VStr []), (''onboot'', VBool False), (''sockets'', VInt 1),
        (''cores'', VInt 2), (''memory'', VInt 2048),
        (''virtio0'', VStr ''size=20G,file=local:101/vm-101-disk-1.qcow2,format=qcow2''),
        (''net0'', VStr ''macaddr=65:8A:AF:D4:F9:1E,bridge=vmbr0,model=virtio'')])"
    by (simp add: CreateQemuNetworksParams_def deprecatedNetworks_def lenDevices_def rangeDevices_def
          scenarioCloneConfig_def scenarioConfig_def scenarioNic_def encodeNic_def
          generateMac_def hardwareAddrString_def hexByte_def ToUpper_def upperChar_def
          exampleRuntime_def upt_conv_Cons
          assertString_def index_def fmtv_def Itoa_def digitsOf.simps confValue_def)
  have cfg: "Description scenarioCloneConfig = []" "Onboot scenarioCloneConfig = False"
    "QemuSockets scenarioCloneConfig = 1" "QemuCores scenarioCloneConfig = 2"
    "Memory scenarioCloneConfig = 2048" "Name scenarioCloneConfig = ''vm1''"
    "Storage scenarioCloneConfig = ''local''" "FullClone scenarioCloneConfig = None"
    "vmId scenarioVm = 101" "node scenarioVm = ''pve''"
    by (simp_all add: scenarioCloneConfig_def scenarioConfig_def scenarioVm_def)
  let ?cp = "[(''newid'', VInt 101), (''target'', VStr ''pve''), (''name'', VStr ''vm1''),
              (''storage'', VStr ''local''), (''full'', VStr ''1'')]"
  have refuse: "CloneQemuVm refusingClient [] sourceVm ?cp = Some ''clone failed''"
    by (simp add: refusingClient_def lockedClient_def)
  have accept: "CloneQemuVm lockedClient [] sourceVm ?cp = None"
    by (simp add: lockedClient_def)
  note refused = CloneVm_then_UpdateConfig
      [where rt = exampleRuntime and client = refusingClient and config = scenarioCloneConfig
         and sourceVmr = sourceVm and vmr = scenarioVm and h = "[]",
       unfolded Let_def cfg option.case, THEN conjunct1, rule_format, OF refuse, THEN conjunct1]
  note updated = CloneVm_then_UpdateConfig
      [where rt = exampleRuntime and client = lockedClient and config = scenarioCloneConfig
         and sourceVmr = sourceVm and vmr = scenarioVm and h = "[]",
       unfolded Let_def cfg option.case, THEN conjunct2, THEN conjunct1, rule_format,
       OF conjI [OF accept conjI [OF disks nets]], THEN conjunct1]
  from refused updated show ?thesis
    by (simp add: lockedClient_def scenarioCloneConfig_def)
qed

text \<open>
  Claim C10. With a nil disk (network) table and a non-empty \<^verbatim>\<open>Storage\<close>
  (\<^verbatim>\<open>QemuNicModel\<close>) the encoder ends in the panic of an assignment to a nil map, before any
  device is encoded; on an initialized empty table the assignment goes through.
\<close>

theorem nil_table_deprecated_panics:
  "(QemuDisks c = None \<and> Storage c \<noteq> [] \<longrightarrow>
      CreateQemuDisksParams rt c vmID action params = Inl (Panic NilMapAssign))
   \<and> (QemuNetworks c = None \<and> QemuNicModel c \<noteq> [] \<longrightarrow>
      CreateQemuNetworksParams rt c vmID params = Inl (Panic NilMapAssign))
   \<and> (QemuDisks c = Some [] \<and> Storage c \<noteq> [] \<longrightarrow> (\<exists>t. deprecatedDisks c = Inr (Some t)))
   \<and> (QemuNetworks c = Some [] \<and> QemuNicModel c \<noteq> [] \<longrightarrow> (\<exists>t. deprecatedNetworks c = Inr (Some t)))"
  by (simp add: CreateQemuDisksParams_def CreateQemuNetworksParams_def deprecatedDisks_def
        deprecatedNetworks_def lenDevices_def assignDevice_def Let_def)

theorem nil_table_deprecated_panics_witness:
  "QemuDisks (scenarioConfig\<lparr>QemuDisks := None\<rparr>) = None \<and> Storage scenarioConfig \<noteq> []
   \<and> CreateQemuDisksParams exampleRuntime (scenarioConfig\<lparr>QemuDisks := None\<rparr>) 101 ''create'' []
       = Inl (Panic NilMapAssign)
   \<and> QemuNicModel scenarioConfig \<noteq> []
   \<and> CreateQemuNetworksParams exampleRuntime (scenarioConfig\<lparr>QemuNetworks := None\<rparr>) 101 []
       = Inl (Panic NilMapAssign)"
  using nil_table_deprecated_panics
      [where c = "scenarioConfig\<lparr>QemuDisks := None\<rparr>" and rt = exampleRuntime
         and vmID = 101 and action = "''create''" and params = "[]"]
    nil_table_deprecated_panics
      [where c = "scenarioConfig\<lparr>QemuNetworks := None\<rparr>" and rt = exampleRuntime
         and vmID = 101 and params = "[]"]
  by (simp add: scenarioConfig_def)

end
